theory Spec2Isabelle
  imports Complex_Main "HOL-Library.Word" "HOL-Library.Signed_Division"
begin

unbundle bit_operations_syntax

section \<open>Configuration\<close>

text \<open>
  \<^verbatim>\<open>sensorManager.cpp\<close> uses several macros that its headers define
  (\<^verbatim>\<open>variant.h\<close>, \<^verbatim>\<open>FFT_signal.h\<close>): they are parameters of the
  model, collected in one record. \<^verbatim>\<open>MAX_SAMPLES\<close>, \<^verbatim>\<open>SAMPLES\<close>,
  \<^verbatim>\<open>BLOCK_SIZE\<close> and \<^verbatim>\<open>CYCLES_FOR_5_MIN\<close> are used as C \<^verbatim>\<open>int\<close>
  values (loop bounds, array sizes); \<^verbatim>\<open>PHASE_DURATION\<close> is compared with a
  difference of \<^verbatim>\<open>unsigned long\<close> clock readings, 32 bits wide on the target.
\<close>

record config =
  MAX_SAMPLES :: int
  SAMPLES :: int
  BLOCK_SIZE :: int
  PHASE_DURATION :: "32 word"
  CYCLES_FOR_5_MIN :: int

text \<open>The macros that the file defines itself (lines 21 to 28).\<close>

definition SAMPLING_FREQUENCY :: int where
  "SAMPLING_FREQUENCY = 5"

definition AXE_MIN_FREQ :: real where
  "AXE_MIN_FREQ = 20"

definition AXE_MAX_FREQ :: real where
  "AXE_MAX_FREQ = 60"

definition SAW_MIN_FREQ :: real where
  "SAW_MIN_FREQ = 5"

definition SAW_MAX_FREQ :: real where
  "SAW_MAX_FREQ = 30"

definition CHAINSAW_MIN_FREQ :: real where
  "CHAINSAW_MIN_FREQ = 50"

definition CHAINSAW_MAX_FREQ :: real where
  "CHAINSAW_MAX_FREQ = 250"

definition SOME_THRESHOLD :: real where
  "SOME_THRESHOLD = 3 / 10"

lemmas band_consts =
  AXE_MIN_FREQ_def AXE_MAX_FREQ_def SAW_MIN_FREQ_def SAW_MAX_FREQ_def
  CHAINSAW_MIN_FREQ_def CHAINSAW_MAX_FREQ_def

section \<open>The spectral classifier: \<^verbatim>\<open>performFFT\<close>\<close>

text \<open>
  Sample values, transform outputs and magnitudes are \<^verbatim>\<open>float\<close> in the source
  and real numbers here: rounding is not modelled. The values that decide the control
  flow of the classifier (the bin frequency, an integer quotient, and the band limits)
  are exactly representable, so the comparisons on them are the source's.

  The three local running maxima of \<^verbatim>\<open>performFFT\<close> (lines 146 to 148).
\<close>

record band_maxima =
  max_axe_magnitude :: real
  max_saw_magnitude :: real
  max_chainsaw_magnitude :: real

definition zero_maxima :: band_maxima where
  "zero_maxima =
     \<lparr>max_axe_magnitude = 0, max_saw_magnitude = 0, max_chainsaw_magnitude = 0\<rparr>"

text \<open>
  Line 152: \<^verbatim>\<open>float frequency = (i * SAMPLING_FREQUENCY) / SAMPLES;\<close>.
  All three operands are \<^verbatim>\<open>int\<close>, so the quotient is C's integer division,
  which truncates towards zero (\<open>sdiv\<close>), and only its result is converted to
  \<^verbatim>\<open>float\<close>. The loop runs the line only for \<open>1 \<le> i < SAMPLES / 2\<close>, where
  \<^verbatim>\<open>SAMPLES\<close> is at least 4 and the product is below \<open>5 / 2 * SAMPLES\<close>: the
  divisor is not 0, and the product is an \<^verbatim>\<open>int\<close> for every array size the target
  can hold.
\<close>

definition bin_frequency :: "int \<Rightarrow> int \<Rightarrow> real" where
  "bin_frequency samples i = real_of_int ((i * SAMPLING_FREQUENCY) sdiv samples)"

text \<open>
  Line 153: the magnitude of bin \<open>i\<close> from the interleaved output, real part at
  \<open>2 * i\<close> and imaginary part at \<open>2 * i + 1\<close>.
\<close>

definition bin_magnitude :: "real list \<Rightarrow> int \<Rightarrow> real" where
  "bin_magnitude out i =
     sqrt ((out ! nat (2 * i)) ^ 2 + (out ! nat (2 * i + 1)) ^ 2)"

text \<open>Lines 157 to 163: the body of the scoring loop, an \<^verbatim>\<open>if / else if\<close> chain.\<close>

definition score_bin :: "real \<Rightarrow> real \<Rightarrow> band_maxima \<Rightarrow> band_maxima" where
  "score_bin frequency magnitude b =
     (if frequency \<ge> AXE_MIN_FREQ \<and> frequency \<le> AXE_MAX_FREQ then
        (if magnitude > max_axe_magnitude b
         then b\<lparr>max_axe_magnitude := magnitude\<rparr> else b)
      else if frequency \<ge> SAW_MIN_FREQ \<and> frequency \<le> SAW_MAX_FREQ then
        (if magnitude > max_saw_magnitude b
         then b\<lparr>max_saw_magnitude := magnitude\<rparr> else b)
      else if frequency \<ge> CHAINSAW_MIN_FREQ \<and> frequency \<le> CHAINSAW_MAX_FREQ then
        (if magnitude > max_chainsaw_magnitude b
         then b\<lparr>max_chainsaw_magnitude := magnitude\<rparr> else b)
      else b)"


text \<open>
  Lines 151 to 164: \<^verbatim>\<open>for (int i = 1; i < (SAMPLES / 2); i++)\<close>, as a
  tail-recursive function of the loop counter and the running maxima.
\<close>

function score_loop :: "int \<Rightarrow> real list \<Rightarrow> int \<Rightarrow> band_maxima \<Rightarrow> band_maxima" where
  "score_loop samples out i b =
     (if i < samples sdiv 2
      then score_loop samples out (i + 1)
             (score_bin (bin_frequency samples i) (bin_magnitude out i) b)
      else b)"
  by pat_completeness auto
termination
  by (relation "measure (\<lambda>(samples, out, i, b). nat (samples sdiv 2 - i))") auto

declare score_loop.simps [simp del]

text \<open>
  Lines 140 to 142: the transform input, the buffer zero-padded (or cut) to
  \<^verbatim>\<open>SAMPLES\<close> entries.
\<close>

definition fft_input_of :: "config \<Rightarrow> real list \<Rightarrow> real list" where
  "fft_input_of cfg buffer =
     map (\<lambda>i. if i < MAX_SAMPLES cfg then buffer ! nat i else 0)
       [0 .. SAMPLES cfg - 1]"

text \<open>
  Lines 168 to 176: the report. The source prints one of four messages; the
  message is the classifier's decision.
\<close>

datatype decision = Chainsaw | Axe | Handsaw | NoActivity

definition report :: "band_maxima \<Rightarrow> decision" where
  "report b =
     (if max_chainsaw_magnitude b > SOME_THRESHOLD then Chainsaw
      else if max_axe_magnitude b > SOME_THRESHOLD then Axe
      else if max_saw_magnitude b > SOME_THRESHOLD then Handsaw
      else NoActivity)"

text \<open>
  The band maxima after the scoring loop, and the whole of \<^verbatim>\<open>performFFT\<close>.
  The transform (\<^verbatim>\<open>fft_execute\<close> of the FFT library) is a parameter: any
  function from the input array to the interleaved output array.
\<close>

definition performFFT_maxima ::
  "config \<Rightarrow> (real list \<Rightarrow> real list) \<Rightarrow> real list \<Rightarrow> band_maxima" where
  "performFFT_maxima cfg fft_execute buffer =
     score_loop (SAMPLES cfg) (fft_execute (fft_input_of cfg buffer)) 1 zero_maxima"

definition performFFT ::
  "config \<Rightarrow> (real list \<Rightarrow> real list) \<Rightarrow> real list \<Rightarrow> decision" where
  "performFFT cfg fft_execute buffer =
     report (performFFT_maxima cfg fft_execute buffer)"

section \<open>The environment\<close>

text \<open>
  The functions below call the sensor driver, the clock, the file system and the power
  rail. What these answer is not decided by the program, so the model takes the answers
  from scripts: one list per primitive that returns a value, consumed from the front, one
  answer per call. A run that asks for more answers than a script holds stops with
  \<open>ScriptExhausted\<close>; every loop below consumes an answer on each turn, which is what
  makes the loops of the model terminate. A run of the source that never ends (a clock
  that stands still; a store that fails and a remount that succeeds, again and again)
  exhausts every finite script. \<open>OutOfBounds\<close> is a write to \<^verbatim>\<open>inputBuffer\<close>
  outside the array, which is undefined behaviour in the source.
\<close>

datatype fault = ScriptExhausted | OutOfBounds

text \<open>
  The calls the program makes to its collaborators, in order, are the observable
  behaviour of a run. \<^verbatim>\<open>Serial\<close> output and \<^verbatim>\<open>delay\<close> are left out, with two
  exceptions: the two lines printed at the start of each phase (\<open>RecordingPhase\<close>, with
  the phase index and the value of \<^verbatim>\<open>remainingCycles\<close> printed) and the line
  printed by the classifier (\<open>Report\<close>).
\<close>

datatype event =
    QuickBlinkAndHalt
  | RecordingPhase int int
  | ToggleSensorPower bool
  | MpuInitialize
  | MpuTestConnection bool
  | MpuConfigureFIFO
  | MpuGetFIFOCount "16 word"
  | MpuGetFIFOBytes
  | MpuResetFIFO
  | LogDataToSPIFFS int bool
  | SpiffsEnd
  | SpiffsBegin bool bool
  | Report decision

text \<open>
  The state: the trace of calls made so far, the two globals \<^verbatim>\<open>remainingCycles\<close>
  and \<^verbatim>\<open>inputBuffer\<close> (an array of \<^verbatim>\<open>MAX_SAMPLES\<close> floats), and the scripts.
  \<^verbatim>\<open>remainingCycles\<close> is a C \<^verbatim>\<open>int\<close>; it only ever decreases from a positive
  value by at most \<^verbatim>\<open>CYCLES_FOR_5_MIN\<close> per call of \<^verbatim>\<open>monitorSensors\<close>, so it is
  modelled as an unbounded integer.
\<close>

record world =
  trace :: "event list"
  remainingCycles :: int
  inputBuffer :: "real list"
  connection_script :: "bool list"
  millis_script :: "32 word list"
  fifo_count_script :: "16 word list"
  fifo_bytes_script :: "8 word list list"
  log_script :: "bool list"
  spiffs_begin_script :: "bool list"

definition emit :: "event \<Rightarrow> world \<Rightarrow> world" where
  "emit e w = w\<lparr>trace := trace w @ [e]\<rparr>"

text \<open>\<^verbatim>\<open>millis()\<close>: the next clock reading, an \<^verbatim>\<open>unsigned long\<close>.\<close>

definition millis :: "world \<Rightarrow> fault + (32 word \<times> world)" where
  "millis w =
     (case millis_script w of
        [] \<Rightarrow> Inl ScriptExhausted
      | t # ts \<Rightarrow> Inr (t, w\<lparr>millis_script := ts\<rparr>))"

text \<open>\<^verbatim>\<open>mpu.getFIFOCount()\<close> and \<^verbatim>\<open>mpu.getFIFOBytes(fifoBuffer, BLOCK_SIZE)\<close>: the
  second answers with the contents of \<^verbatim>\<open>fifoBuffer\<close> after the call.\<close>

definition getFIFOCount :: "world \<Rightarrow> fault + (16 word \<times> world)" where
  "getFIFOCount w =
     (case fifo_count_script w of
        [] \<Rightarrow> Inl ScriptExhausted
      | c # cs \<Rightarrow> Inr (c, emit (MpuGetFIFOCount c) (w\<lparr>fifo_count_script := cs\<rparr>)))"

definition getFIFOBytes :: "world \<Rightarrow> fault + (8 word list \<times> world)" where
  "getFIFOBytes w =
     (case fifo_bytes_script w of
        [] \<Rightarrow> Inl ScriptExhausted
      | bs # rest \<Rightarrow> Inr (bs, emit MpuGetFIFOBytes (w\<lparr>fifo_bytes_script := rest\<rparr>)))"

section \<open>Acquisition: \<^verbatim>\<open>readAccelerometerDataForPhase\<close>\<close>

text \<open>
  Line 126: \<^verbatim>\<open>int16_t accelX = (fifoBuffer[i] << 8) | fifoBuffer[i + 1];\<close>, the
  big-endian 16-bit value of two bytes. The loop guard keeps \<open>i + 1\<close> below
  \<^verbatim>\<open>BLOCK_SIZE\<close>, the size of \<^verbatim>\<open>fifoBuffer\<close>.
\<close>

definition accelX :: "8 word list \<Rightarrow> int \<Rightarrow> 16 word" where
  "accelX fifoBuffer i =
     push_bit 8 (ucast (fifoBuffer ! nat i)) OR ucast (fifoBuffer ! nat (i + 1))"

text \<open>
  Line 127, the write \<^verbatim>\<open>inputBuffer[samplesRead++] = ...\<close>: the model checks the
  index against the array and faults where the source would write outside it.
\<close>

definition store_sample :: "real list \<Rightarrow> int \<Rightarrow> real \<Rightarrow> fault + real list" where
  "store_sample buf idx v =
     (if 0 \<le> idx \<and> idx < int (length buf) then Inr (buf[nat idx := v]) else Inl OutOfBounds)"

text \<open>
  Lines 125 to 128: \<^verbatim>\<open>for (int i = 0; i <= BLOCK_SIZE - 6 && samplesRead < MAX_SAMPLES; i += 6)\<close>,
  storing \<^verbatim>\<open>accelX / 16384.0\<close> for every group of six bytes. It returns the new
  \<^verbatim>\<open>samplesRead\<close> and the new buffer.
\<close>

function extract_block ::
  "config \<Rightarrow> 8 word list \<Rightarrow> int \<Rightarrow> int \<Rightarrow> real list \<Rightarrow> fault + (int \<times> real list)" where
  "extract_block cfg fifoBuffer i samplesRead buf =
     (if i \<le> BLOCK_SIZE cfg - 6 \<and> samplesRead < MAX_SAMPLES cfg then
        (case store_sample buf samplesRead (real_of_int (sint (accelX fifoBuffer i)) / 16384) of
           Inl e \<Rightarrow> Inl e
         | Inr buf' \<Rightarrow> extract_block cfg fifoBuffer (i + 6) (samplesRead + 1) buf')
      else Inr (samplesRead, buf))"
  by pat_completeness auto
termination
  by (relation "measure (\<lambda>(cfg, fifoBuffer, i, samplesRead, buf). nat (BLOCK_SIZE cfg - i))") auto

declare extract_block.simps [simp del]

text \<open>
  Lines 118 to 134: \<^verbatim>\<open>while (millis() - startMillis < PHASE_DURATION)\<close>. The
  subtraction and the comparison are those of 32-bit unsigned words. The comparison
  \<^verbatim>\<open>fifoCount >= BLOCK_SIZE\<close> promotes the \<^verbatim>\<open>uint16_t\<close> count to \<^verbatim>\<open>int\<close>.
  The branch \<^verbatim>\<open>fifoCount == 0\<close> only waits.
\<close>

function acquire_loop ::
  "config \<Rightarrow> 32 word \<Rightarrow> int \<Rightarrow> world \<Rightarrow> fault + (int \<times> world)" where
  "acquire_loop cfg startMillis samplesRead w =
     (case millis w of
        Inl e \<Rightarrow> Inl e
      | Inr (now, w1) \<Rightarrow>
          if now - startMillis < PHASE_DURATION cfg then
            (case getFIFOCount w1 of
               Inl e \<Rightarrow> Inl e
             | Inr (fifoCount, w2) \<Rightarrow>
                 if uint fifoCount \<ge> BLOCK_SIZE cfg then
                   (case getFIFOBytes w2 of
                      Inl e \<Rightarrow> Inl e
                    | Inr (fifoBuffer, w3) \<Rightarrow>
                        (case extract_block cfg fifoBuffer 0 samplesRead
                                (inputBuffer (emit MpuResetFIFO w3)) of
                           Inl e \<Rightarrow> Inl e
                         | Inr (samplesRead', buf) \<Rightarrow>
                             acquire_loop cfg startMillis samplesRead'
                               ((emit MpuResetFIFO w3)\<lparr>inputBuffer := buf\<rparr>)))
                 else acquire_loop cfg startMillis samplesRead w2)
          else Inr (samplesRead, w1))"
  by pat_completeness auto
termination
  by (relation "measure (\<lambda>(cfg, startMillis, samplesRead, w). length (millis_script w))")
     (auto simp: millis_def getFIFOCount_def getFIFOBytes_def emit_def split: list.splits)

declare acquire_loop.simps [simp del]

text \<open>Lines 113 to 135: the whole function; \<^verbatim>\<open>samplesRead\<close> starts at 0 on each call.\<close>

definition readAccelerometerDataForPhase :: "config \<Rightarrow> int \<Rightarrow> world \<Rightarrow> fault + world" where
  "readAccelerometerDataForPhase cfg phase w =
     (case millis w of
        Inl e \<Rightarrow> Inl e
      | Inr (startMillis, w1) \<Rightarrow>
          (case acquire_loop cfg startMillis 0 w1 of
             Inl e \<Rightarrow> Inl e
           | Inr (samplesRead, w2) \<Rightarrow> Inr w2))"

section \<open>The phase scheduler: \<^verbatim>\<open>monitorSensors\<close>\<close>

text \<open>\<^verbatim>\<open>toggleSensorPower\<close> (from \<^verbatim>\<open>powerManager.h\<close>) returns nothing.\<close>

definition toggleSensorPower :: "bool \<Rightarrow> world \<Rightarrow> world" where
  "toggleSensorPower on w = emit (ToggleSensorPower on) w"

text \<open>
  Lines 50 to 68: \<^verbatim>\<open>initializeMPU\<close> fails exactly when \<^verbatim>\<open>mpu.testConnection()\<close>
  answers false; otherwise it configures the FIFO (lines 60 to 65) and succeeds.
\<close>

definition testConnection :: "world \<Rightarrow> fault + (bool \<times> world)" where
  "testConnection w =
     (case connection_script w of
        [] \<Rightarrow> Inl ScriptExhausted
      | ok # rest \<Rightarrow> Inr (ok, emit (MpuTestConnection ok) (w\<lparr>connection_script := rest\<rparr>)))"

definition initializeMPU :: "world \<Rightarrow> fault + (bool \<times> world)" where
  "initializeMPU w =
     (case testConnection (emit MpuInitialize w) of
        Inl e \<Rightarrow> Inl e
      | Inr (ok, w1) \<Rightarrow>
          if \<not> ok then Inr (False, w1)
          else Inr (True, emit MpuConfigureFIFO w1))"

text \<open>
  \<^verbatim>\<open>logDataToSPIFFS(inputBuffer, MAX_SAMPLES, phase)\<close> (from \<^verbatim>\<open>spiffsManager.h\<close>),
  \<^verbatim>\<open>SPIFFS.end()\<close> and \<^verbatim>\<open>SPIFFS.begin(formatOnFail)\<close>.
\<close>

definition logDataToSPIFFS :: "int \<Rightarrow> world \<Rightarrow> fault + (bool \<times> world)" where
  "logDataToSPIFFS phase w =
     (case log_script w of
        [] \<Rightarrow> Inl ScriptExhausted
      | ok # rest \<Rightarrow> Inr (ok, emit (LogDataToSPIFFS phase ok) (w\<lparr>log_script := rest\<rparr>)))"

definition SPIFFS_end :: "world \<Rightarrow> world" where
  "SPIFFS_end w = emit SpiffsEnd w"

definition SPIFFS_begin :: "bool \<Rightarrow> world \<Rightarrow> fault + (bool \<times> world)" where
  "SPIFFS_begin formatOnFail w =
     (case spiffs_begin_script w of
        [] \<Rightarrow> Inl ScriptExhausted
      | ok # rest \<Rightarrow>
          Inr (ok, emit (SpiffsBegin formatOnFail ok) (w\<lparr>spiffs_begin_script := rest\<rparr>)))"

text \<open>
  The call of \<^verbatim>\<open>performFFT()\<close> on line 98: it reads the global buffer and prints its
  decision.
\<close>

definition call_performFFT :: "config \<Rightarrow> (real list \<Rightarrow> real list) \<Rightarrow> world \<Rightarrow> world" where
  "call_performFFT cfg fft_execute w =
     emit (Report (performFFT cfg fft_execute (inputBuffer w))) w"

subsection \<open>What an acquisition leaves unchanged\<close>

text \<open>
  The termination of the attempt loop below rests on a fact about the acquisition: it
  consumes no answer of the connection script. The frame of an acquisition says this and
  more: \<^verbatim>\<open>remainingCycles\<close>, the connection, logging and remount scripts and the
  size of the buffer are unchanged, and the trace is extended by sensor-queue calls only.
\<close>

definition acquisition_event :: "event \<Rightarrow> bool" where
  "acquisition_event e =
     (case e of MpuGetFIFOCount c \<Rightarrow> True | MpuGetFIFOBytes \<Rightarrow> True
      | MpuResetFIFO \<Rightarrow> True | _ \<Rightarrow> False)"

definition acquisition_frame :: "world \<Rightarrow> world \<Rightarrow> bool" where
  "acquisition_frame w w' =
     (remainingCycles w' = remainingCycles w
      \<and> connection_script w' = connection_script w
      \<and> log_script w' = log_script w
      \<and> spiffs_begin_script w' = spiffs_begin_script w
      \<and> length (inputBuffer w') = length (inputBuffer w)
      \<and> length (trace w) \<le> length (trace w')
      \<and> take (length (trace w)) (trace w') = trace w
      \<and> list_all acquisition_event (drop (length (trace w)) (trace w')))"

lemma acquisition_frame_refl: "acquisition_frame w w"
  by (simp add: acquisition_frame_def)

lemma acquisition_frame_trans:
  assumes "acquisition_frame w1 w2" and "acquisition_frame w2 w3"
  shows "acquisition_frame w1 w3"
proof -
  obtain es where es: "trace w2 = trace w1 @ es" "list_all acquisition_event es"
    using assms(1) unfolding acquisition_frame_def
    by (metis append_take_drop_id)
  obtain fs where fs: "trace w3 = trace w2 @ fs" "list_all acquisition_event fs"
    using assms(2) unfolding acquisition_frame_def
    by (metis append_take_drop_id)
  show ?thesis
    using assms es fs by (simp add: acquisition_frame_def)
qed

lemma millis_frame: "millis w = Inr (t, w') \<Longrightarrow> acquisition_frame w w'"
  by (auto simp: millis_def acquisition_frame_def split: list.splits)

lemma getFIFOCount_frame: "getFIFOCount w = Inr (c, w') \<Longrightarrow> acquisition_frame w w'"
  by (auto simp: getFIFOCount_def emit_def acquisition_frame_def acquisition_event_def
      split: list.splits)

lemma getFIFOBytes_frame: "getFIFOBytes w = Inr (c, w') \<Longrightarrow> acquisition_frame w w'"
  by (auto simp: getFIFOBytes_def emit_def acquisition_frame_def acquisition_event_def
      split: list.splits)

lemma store_sample_length: "store_sample buf idx v = Inr buf' \<Longrightarrow> length buf' = length buf"
  by (auto simp: store_sample_def split: if_splits)

lemma extract_block_length:
  "extract_block cfg fifoBuffer i samplesRead buf = Inr (n, buf') \<Longrightarrow> length buf' = length buf"
proof (induction cfg fifoBuffer i samplesRead buf rule: extract_block.induct)
  case (1 cfg fifoBuffer i samplesRead buf)
  show ?case
  proof (cases "i \<le> BLOCK_SIZE cfg - 6 \<and> samplesRead < MAX_SAMPLES cfg")
    case True
    then obtain buf1 where
      st: "store_sample buf samplesRead (real_of_int (sint (accelX fifoBuffer i)) / 16384) = Inr buf1"
      and rec: "extract_block cfg fifoBuffer (i + 6) (samplesRead + 1) buf1 = Inr (n, buf')"
      using "1.prems"
      by (subst (asm) extract_block.simps) (auto split: sum.splits)
    from "1.IH" [OF True st rec] store_sample_length [OF st] show ?thesis by simp
  next
    case False
    then show ?thesis
      using "1.prems" by (subst (asm) extract_block.simps) auto
  qed
qed

lemma reset_store_frame:
  "length buf = length (inputBuffer w) \<Longrightarrow>
   acquisition_frame w ((emit MpuResetFIFO w)\<lparr>inputBuffer := buf\<rparr>)"
  by (simp add: emit_def acquisition_frame_def acquisition_event_def)

lemma acquire_loop_frame:
  "acquire_loop cfg startMillis samplesRead w = Inr (n, w') \<Longrightarrow> acquisition_frame w w'"
proof (induction cfg startMillis samplesRead w rule: acquire_loop.induct)
  case (1 cfg startMillis samplesRead w)
  from "1.prems" obtain now w1 where m: "millis w = Inr (now, w1)"
    by (subst (asm) acquire_loop.simps) (auto split: sum.splits)
  note f1 = millis_frame [OF m]
  show ?case
  proof (cases "now - startMillis < PHASE_DURATION cfg")
    case False
    with "1.prems" m have "w' = w1"
      by (subst (asm) acquire_loop.simps) simp
    with f1 show ?thesis by simp
  next
    case inside: True
    with "1.prems" m obtain fifoCount w2 where c: "getFIFOCount w1 = Inr (fifoCount, w2)"
      by (subst (asm) acquire_loop.simps) (auto split: sum.splits)
    note f2 = acquisition_frame_trans [OF f1 getFIFOCount_frame [OF c]]
    show ?thesis
    proof (cases "uint fifoCount \<ge> BLOCK_SIZE cfg")
      case False
      with "1.prems" m inside c have "acquire_loop cfg startMillis samplesRead w2 = Inr (n, w')"
        by (subst (asm) acquire_loop.simps) simp
      from "1.IH"(2) [OF m refl inside c refl False this] f2 show ?thesis
        by (rule acquisition_frame_trans [rotated])
    next
      case full: True
      with "1.prems" m inside c obtain fifoBuffer w3 k buf where
        b: "getFIFOBytes w2 = Inr (fifoBuffer, w3)"
        and x: "extract_block cfg fifoBuffer 0 samplesRead (inputBuffer (emit MpuResetFIFO w3))
                  = Inr (k, buf)"
        and rec: "acquire_loop cfg startMillis k ((emit MpuResetFIFO w3)\<lparr>inputBuffer := buf\<rparr>)
                  = Inr (n, w')"
        by (subst (asm) acquire_loop.simps) (auto split: sum.splits)
      have "length buf = length (inputBuffer w3)"
        using extract_block_length [OF x] by (simp add: emit_def)
      then have f3: "acquisition_frame w ((emit MpuResetFIFO w3)\<lparr>inputBuffer := buf\<rparr>)"
        using f2 getFIFOBytes_frame [OF b] reset_store_frame
        by (blast intro: acquisition_frame_trans)
      from "1.IH"(1) [OF m refl inside c refl full b refl x refl rec] f3 show ?thesis
        by (rule acquisition_frame_trans [rotated])
    qed
  qed
qed

lemma readAccelerometerDataForPhase_frame:
  "readAccelerometerDataForPhase cfg phase w = Inr w' \<Longrightarrow> acquisition_frame w w'"
  unfolding readAccelerometerDataForPhase_def
  by (auto split: sum.splits dest!: millis_frame acquire_loop_frame
      intro: acquisition_frame_trans)

text \<open>
  Lines 80 to 107: \<^verbatim>\<open>while (!phaseCompleted && retryCount < 3)\<close>, as a function of
  the two loop variables and the state. \<^verbatim>\<open>continue\<close> (line 89) and the fall-through
  after a successful remount are recursive calls; \<^verbatim>\<open>break\<close> (line 104) returns. The
  function returns the final values of \<^verbatim>\<open>phaseCompleted\<close> and \<^verbatim>\<open>retryCount\<close>.
\<close>

function attempt_loop ::
  "config \<Rightarrow> (real list \<Rightarrow> real list) \<Rightarrow> int \<Rightarrow> bool \<Rightarrow> int \<Rightarrow> world
   \<Rightarrow> fault + ((bool \<times> int) \<times> world)" where
  "attempt_loop cfg fft_execute phase phaseCompleted retryCount w =
     (if \<not> phaseCompleted \<and> retryCount < 3 then
        (case initializeMPU (toggleSensorPower True w) of
           Inl e \<Rightarrow> Inl e
         | Inr (initialized, w1) \<Rightarrow>
             if \<not> initialized then
               attempt_loop cfg fft_execute phase phaseCompleted (retryCount + 1) w1
             else
               (case readAccelerometerDataForPhase cfg phase w1 of
                  Inl e \<Rightarrow> Inl e
                | Inr w2 \<Rightarrow>
                    (case logDataToSPIFFS phase w2 of
                       Inl e \<Rightarrow> Inl e
                     | Inr (loggingSuccess, w3) \<Rightarrow>
                         if loggingSuccess then
                           attempt_loop cfg fft_execute phase True retryCount
                             (call_performFFT cfg fft_execute (toggleSensorPower False w3))
                         else
                           (case SPIFFS_begin True (SPIFFS_end w3) of
                              Inl e \<Rightarrow> Inl e
                            | Inr (mounted, w4) \<Rightarrow>
                                if \<not> mounted then Inr ((phaseCompleted, retryCount), w4)
                                else attempt_loop cfg fft_execute phase phaseCompleted
                                       retryCount w4))))
      else Inr ((phaseCompleted, retryCount), w))"
  by pat_completeness auto

text \<open>
  Every turn of the loop calls \<^verbatim>\<open>initializeMPU\<close>, which consumes one answer of the
  connection script; nothing else in the loop body touches that script.
\<close>

lemma initializeMPU_consumes:
  "initializeMPU w = Inr (ok, w') \<Longrightarrow>
   length (connection_script w') < length (connection_script w)"
  by (auto simp: initializeMPU_def testConnection_def emit_def
      split: sum.splits list.splits if_splits)

lemma logDataToSPIFFS_connection:
  "logDataToSPIFFS phase w = Inr (ok, w') \<Longrightarrow> connection_script w' = connection_script w"
  by (auto simp: logDataToSPIFFS_def emit_def split: list.splits)

lemma SPIFFS_begin_connection:
  "SPIFFS_begin f w = Inr (ok, w') \<Longrightarrow> connection_script w' = connection_script w"
  by (auto simp: SPIFFS_begin_def emit_def split: list.splits)

termination attempt_loop
proof (relation "measure (\<lambda>(cfg, fft_execute, phase, phaseCompleted, retryCount, w).
          if \<not> phaseCompleted \<and> retryCount < 3 then Suc (length (connection_script w)) else 0)",
       goal_cases)
  case 1
  show ?case by simp
next
  case (2 cfg fft_execute phase phaseCompleted retryCount w x2 initialized w1)
  then show ?case
    by (auto dest!: initializeMPU_consumes simp: toggleSensorPower_def emit_def)
next
  case (3 cfg fft_execute phase phaseCompleted retryCount w x2 initialized w1 w2 x2a
      loggingSuccess w3)
  then show ?case by simp
next
  case (4 cfg fft_execute phase phaseCompleted retryCount w x2 initialized w1 w2 x2a
      loggingSuccess w3 x2b mounted w4)
  then show ?case
    by (auto dest!: initializeMPU_consumes readAccelerometerDataForPhase_frame
        logDataToSPIFFS_connection SPIFFS_begin_connection
        simp: toggleSensorPower_def emit_def SPIFFS_end_def acquisition_frame_def)
qed

declare attempt_loop.simps [simp del]

text \<open>
  Lines 77 to 109: one turn of the \<^verbatim>\<open>for\<close> loop: the two lines printed, the attempt
  loop from \<^verbatim>\<open>phaseCompleted = false\<close> and \<^verbatim>\<open>retryCount = 0\<close>, and
  \<^verbatim>\<open>remainingCycles--\<close>.
\<close>

definition phase_iteration ::
  "config \<Rightarrow> (real list \<Rightarrow> real list) \<Rightarrow> int \<Rightarrow> world \<Rightarrow> fault + world" where
  "phase_iteration cfg fft_execute phase w =
     (case attempt_loop cfg fft_execute phase False 0
             (emit (RecordingPhase phase (remainingCycles w)) w) of
        Inl e \<Rightarrow> Inl e
      | Inr (r, w1) \<Rightarrow> Inr (w1\<lparr>remainingCycles := remainingCycles w1 - 1\<rparr>))"

text \<open>Line 76: \<^verbatim>\<open>for (int phase = 1; phase <= CYCLES_FOR_5_MIN; phase++)\<close>.\<close>

function phase_loop ::
  "config \<Rightarrow> (real list \<Rightarrow> real list) \<Rightarrow> int \<Rightarrow> world \<Rightarrow> fault + world" where
  "phase_loop cfg fft_execute phase w =
     (if phase \<le> CYCLES_FOR_5_MIN cfg then
        (case phase_iteration cfg fft_execute phase w of
           Inl e \<Rightarrow> Inl e
         | Inr w1 \<Rightarrow> phase_loop cfg fft_execute (phase + 1) w1)
      else Inr w)"
  by pat_completeness auto
termination
  by (relation "measure (\<lambda>(cfg, fft_execute, phase, w). nat (CYCLES_FOR_5_MIN cfg + 1 - phase))")
     auto

declare phase_loop.simps [simp del]

text \<open>
  Lines 70 to 111. \<^verbatim>\<open>quickBlinkAndHalt\<close> (from \<^verbatim>\<open>powerManager.h\<close>) is followed
  by \<^verbatim>\<open>return\<close>.
\<close>

definition monitorSensors ::
  "config \<Rightarrow> (real list \<Rightarrow> real list) \<Rightarrow> world \<Rightarrow> fault + world" where
  "monitorSensors cfg fft_execute w =
     (if remainingCycles w \<le> 0 then Inr (emit QuickBlinkAndHalt w)
      else phase_loop cfg fft_execute 1 w)"

section \<open>Reading a trace\<close>

text \<open>
  The properties of the scheduler are stated on the events that a run adds to the trace.
  These functions pick out the events they speak of: a classification, the start of a
  phase, a persistence call that failed, a remount with formatting allowed, and a failed
  connection test (the only way \<^verbatim>\<open>initializeMPU\<close> fails).
\<close>

fun is_report :: "event \<Rightarrow> bool" where
  "is_report (Report d) = True"
| "is_report _ = False"

fun is_recording :: "event \<Rightarrow> bool" where
  "is_recording (RecordingPhase p c) = True"
| "is_recording _ = False"

fun is_failed_log :: "event \<Rightarrow> bool" where
  "is_failed_log (LogDataToSPIFFS p ok) = (\<not> ok)"
| "is_failed_log _ = False"

fun is_remount :: "event \<Rightarrow> bool" where
  "is_remount (SpiffsBegin formatOnFail ok) = formatOnFail"
| "is_remount _ = False"

fun is_failed_init :: "event \<Rightarrow> bool" where
  "is_failed_init (MpuTestConnection ok) = (\<not> ok)"
| "is_failed_init _ = False"

text \<open>
  What the events of one phase say about the final values of the loop variables: the
  retry counter is the number of failed initialisations, there are as many remounts as
  failed persistence calls, the phase is completed exactly when a classification was
  made, and no phase starts inside a phase.
\<close>

definition phase_summary :: "event list \<Rightarrow> bool \<Rightarrow> int \<Rightarrow> bool" where
  "phase_summary es phaseCompleted retryCount =
     (retryCount = int (length (filter is_failed_init es))
      \<and> length (filter is_remount es) = length (filter is_failed_log es)
      \<and> phaseCompleted = (filter is_report es \<noteq> [])
      \<and> filter is_recording es = [])"

section \<open>A small configuration and environment\<close>

text \<open>
  Concrete inputs for the runs evaluated below: a buffer of two samples, blocks of twelve
  bytes (two groups of six), a phase of 100 ms and two phases per call. The clock starts at
  1000 and passes the phase duration at the fifth reading; the sensor queue is full at the
  first and third poll and empty at the second. The first block holds the readings
  \<open>0x4000\<close> and \<open>0xC000\<close>, that is \<open>1\<close> and \<open>-1\<close> in units of g. The
  transform of the example returns its input.
\<close>

definition example_config :: config where
  "example_config =
     \<lparr>MAX_SAMPLES = 2, SAMPLES = 8, BLOCK_SIZE = 12, PHASE_DURATION = 100,
      CYCLES_FOR_5_MIN = 2\<rparr>"

definition example_block :: "8 word list" where
  "example_block = [0x40, 0, 0, 0, 0, 0, 0xC0, 0, 0, 0, 0, 0]"

definition example_world :: world where
  "example_world =
     \<lparr>trace = [], remainingCycles = 1, inputBuffer = [0, 0],
      connection_script = [True, False, False, False],
      millis_script = [1000, 1010, 1020, 1030, 1100],
      fifo_count_script = [12, 0, 12],
      fifo_bytes_script =
        [example_block, [0x20, 0, 0, 0, 0, 0, 0x10, 0, 0, 0, 0, 0]],
      log_script = [True],
      spiffs_begin_script = []\<rparr>"

definition example_fft :: "real list \<Rightarrow> real list" where
  "example_fft input = input"

text \<open>
  The state after one acquisition from \<open>example_world\<close>, the events of one attempt
  whose initialisation and acquisition succeed, an environment whose sensor fails its
  first three connection tests, one whose file system neither stores nor remounts, and the state after a whole
  call of \<^verbatim>\<open>monitorSensors\<close> from \<open>example_world\<close>.
\<close>

definition example_acquired :: world where
  "example_acquired =
     example_world\<lparr>inputBuffer := [1, -1], millis_script := [], fifo_count_script := [],
       fifo_bytes_script := [],
       trace := [MpuGetFIFOCount 12, MpuGetFIFOBytes, MpuResetFIFO, MpuGetFIFOCount 0,
                 MpuGetFIFOCount 12, MpuGetFIFOBytes, MpuResetFIFO]\<rparr>"

definition example_attempt_events :: "event list" where
  "example_attempt_events =
     [ToggleSensorPower True, MpuInitialize, MpuTestConnection True, MpuConfigureFIFO,
      MpuGetFIFOCount 12, MpuGetFIFOBytes, MpuResetFIFO, MpuGetFIFOCount 0,
      MpuGetFIFOCount 12, MpuGetFIFOBytes, MpuResetFIFO]"

definition example_failing :: world where
  "example_failing = example_world\<lparr>connection_script := [False, False, False, True]\<rparr>"

definition example_unwritable :: world where
  "example_unwritable = example_world\<lparr>log_script := [False], spiffs_begin_script := [False]\<rparr>"

definition example_final :: world where
  "example_final =
     \<lparr>trace =
        [RecordingPhase 1 1] @ example_attempt_events
        @ [LogDataToSPIFFS 1 True, ToggleSensorPower False, Report NoActivity,
           RecordingPhase 2 0,
           ToggleSensorPower True, MpuInitialize, MpuTestConnection False,
           ToggleSensorPower True, MpuInitialize, MpuTestConnection False,
           ToggleSensorPower True, MpuInitialize, MpuTestConnection False],
      remainingCycles = - 1, inputBuffer = [1, -1],
      connection_script = [], millis_script = [], fifo_count_script = [],
      fifo_bytes_script = [], log_script = [], spiffs_begin_script = []\<rparr>"

lemmas example_defs =
  example_config_def example_world_def example_acquired_def example_fft_def

lemmas primitive_defs =
  millis_def getFIFOCount_def getFIFOBytes_def emit_def store_sample_def
  toggleSensorPower_def testConnection_def initializeMPU_def logDataToSPIFFS_def
  SPIFFS_end_def SPIFFS_begin_def call_performFFT_def

section \<open>Properties of the classifier\<close>

subsection \<open>Bin frequencies\<close>

lemma scored_bin_samples_pos:
  assumes "1 \<le> i" and "i < samples sdiv 2"
  shows "4 \<le> (samples::int)"
proof (rule ccontr)
  assume "\<not> 4 \<le> samples"
  then have "samples sdiv 2 \<le> 1"
    by (simp add: signed_divide_int_def sgn_if abs_if) linarith
  with assms show False by simp
qed

lemma scored_bin_twice_less:
  assumes "1 \<le> i" and "i < samples sdiv 2"
  shows "2 * i < (samples::int)"
proof -
  have pos: "4 \<le> samples" using assms by (rule scored_bin_samples_pos)
  then have "samples sdiv 2 = samples div 2"
    by (simp add: signed_divide_int_def sgn_if abs_if)
  with assms show ?thesis by linarith
qed

lemma bin_frequency_eq_div:
  assumes "1 \<le> i" and "i < samples sdiv 2"
  shows "bin_frequency samples i = real_of_int ((i * 5) div samples)"
proof -
  have "4 \<le> samples" using assms by (rule scored_bin_samples_pos)
  with assms(1) show ?thesis
    by (simp add: bin_frequency_def SAMPLING_FREQUENCY_def signed_divide_int_def sgn_if abs_if)
qed

lemma bin_frequency_range:
  assumes "1 \<le> i" and "i < samples sdiv 2"
  shows "0 \<le> bin_frequency samples i \<and> bin_frequency samples i \<le> 2"
proof -
  have pos: "4 \<le> samples" using assms by (rule scored_bin_samples_pos)
  have lt: "2 * i < samples" using assms by (rule scored_bin_twice_less)
  have "i * 5 < 3 * samples" using lt assms(1) by linarith
  moreover have "samples * ((i * 5) div samples) + (i * 5) mod samples = i * 5"
    by (rule mult_div_mod_eq)
  moreover have "0 \<le> (i * 5) mod samples"
    using pos by simp
  ultimately have "samples * ((i * 5) div samples) < samples * 3"
    by linarith
  then have "(i * 5) div samples < 3"
    using pos by (simp add: mult_less_cancel_left_pos)
  moreover have "0 \<le> (i * 5) div samples"
    using pos assms(1) by (simp add: pos_imp_zdiv_nonneg_iff)
  ultimately show ?thesis
    using bin_frequency_eq_div [OF assms] by simp
qed

lemma score_bin_below_bands:
  assumes "frequency < 5"
  shows "score_bin frequency magnitude b = b"
  using assms by (simp add: score_bin_def band_consts)

lemma score_loop_unchanged:
  assumes "1 \<le> i"
  shows "score_loop samples out i b = b"
  using assms
proof (induction samples out i b rule: score_loop.induct)
  case (1 samples out i b)
  show ?case
  proof (cases "i < samples sdiv 2")
    case True
    have "bin_frequency samples i < 5"
      using bin_frequency_range [OF "1.prems" True] by simp
    then have same: "score_bin (bin_frequency samples i) (bin_magnitude out i) b = b"
      by (rule score_bin_below_bands)
    have "score_loop samples out (i + 1) b = b"
      using "1.IH" [OF True] "1.prems" same by simp
    then show ?thesis
      using True same by (simp add: score_loop.simps [of samples out i b])
  next
    case False
    then show ?thesis
      by (simp add: score_loop.simps [of samples out i b])
  qed
qed

lemma performFFT_maxima_zero: "performFFT_maxima cfg fft_execute buffer = zero_maxima"
  by (simp add: performFFT_maxima_def score_loop_unchanged)

lemma performFFT_NoActivity: "performFFT cfg fft_execute buffer = NoActivity"
  by (simp add: performFFT_def performFFT_maxima_zero report_def zero_maxima_def
      SOME_THRESHOLD_def)

text \<open>
  C1. Every scored bin has a frequency below 2.5, and so below the lowest band minimum,
  that of the handsaw band. Whatever the buffer, the configuration and the transform, no
  scored bin reaches a band: the three maxima are still 0 after the scoring loop and the
  decision is \<open>NoActivity\<close>.
\<close>

theorem performFFT_always_none:
  "(\<forall>i. 1 \<le> i \<and> i < SAMPLES cfg sdiv 2 \<longrightarrow>
       bin_frequency (SAMPLES cfg) i < 5 / 2 \<and> 5 / 2 < SAW_MIN_FREQ
       \<and> SAW_MIN_FREQ \<le> AXE_MIN_FREQ \<and> SAW_MIN_FREQ \<le> CHAINSAW_MIN_FREQ)
   \<and> performFFT_maxima cfg fft_execute buffer = zero_maxima
   \<and> performFFT cfg fft_execute buffer = NoActivity"
proof (intro conjI allI impI)
  fix i assume "1 \<le> i \<and> i < SAMPLES cfg sdiv 2"
  then have "bin_frequency (SAMPLES cfg) i \<le> 2"
    using bin_frequency_range [of i "SAMPLES cfg"] by simp
  then show "bin_frequency (SAMPLES cfg) i < 5 / 2" by simp
qed (simp_all add: performFFT_maxima_zero performFFT_NoActivity band_consts)

text \<open>
  C1, witness: with 8 samples the scored bins are 1, 2 and 3; bin 3 has frequency 1, and
  a buffer holding \<open>1\<close> and \<open>-1\<close> is classified as no activity.
\<close>

theorem performFFT_always_none_witness:
  "(1::int) \<le> 3 \<and> 3 < SAMPLES example_config sdiv 2
   \<and> bin_frequency (SAMPLES example_config) 3 = 1
   \<and> bin_frequency (SAMPLES example_config) 3 < 5 / 2
   \<and> performFFT_maxima example_config example_fft [1, - 1] = zero_maxima
   \<and> performFFT example_config example_fft [1, - 1] = NoActivity"
  using performFFT_always_none [of example_config example_fft "[1, - 1]"]
  by (simp add: example_config_def bin_frequency_def SAMPLING_FREQUENCY_def
      signed_divide_int_def)

subsection \<open>The decision\<close>

text \<open>
  C2. The decision of \<^verbatim>\<open>performFFT\<close> is the report on the band maxima, and the report
  follows the order chainsaw, axe, handsaw against the threshold 0.3: it is the first
  band in that order whose maximum is strictly above the threshold, and \<open>NoActivity\<close>
  when none is. Maxima of 0.4 (chainsaw), 0.5 (axe) and 0.6 (handsaw) give chainsaw.
\<close>

theorem report_priority_order:
  "performFFT cfg fft_execute buffer = report (performFFT_maxima cfg fft_execute buffer)
   \<and> SOME_THRESHOLD = 0.3
   \<and> (report b = Chainsaw \<longleftrightarrow> max_chainsaw_magnitude b > SOME_THRESHOLD)
   \<and> (report b = Axe \<longleftrightarrow>
        \<not> max_chainsaw_magnitude b > SOME_THRESHOLD \<and> max_axe_magnitude b > SOME_THRESHOLD)
   \<and> (report b = Handsaw \<longleftrightarrow>
        \<not> max_chainsaw_magnitude b > SOME_THRESHOLD \<and> \<not> max_axe_magnitude b > SOME_THRESHOLD
        \<and> max_saw_magnitude b > SOME_THRESHOLD)
   \<and> (report b = NoActivity \<longleftrightarrow>
        \<not> max_chainsaw_magnitude b > SOME_THRESHOLD \<and> \<not> max_axe_magnitude b > SOME_THRESHOLD
        \<and> \<not> max_saw_magnitude b > SOME_THRESHOLD)
   \<and> report \<lparr>max_axe_magnitude = 0.5, max_saw_magnitude = 0.6,
               max_chainsaw_magnitude = 0.4\<rparr> = Chainsaw"
  by (simp add: performFFT_def report_def SOME_THRESHOLD_def)

subsection \<open>Band membership\<close>

text \<open>
  The tests of the loop body are written with \<open>\<le>\<close> on both bounds. The maximum of a
  band is raised to the bin's magnitude exactly when the frequency is between the band's
  minimum and maximum, both included, and in the range of no band tested before it (axe,
  then handsaw, then chainsaw), and the magnitude is above the running maximum.
\<close>

lemma score_bin_closed_intervals:
  "max_axe_magnitude (score_bin f m b) =
     (if f \<in> {AXE_MIN_FREQ .. AXE_MAX_FREQ} \<and> m > max_axe_magnitude b
      then m else max_axe_magnitude b)
   \<and> max_saw_magnitude (score_bin f m b) =
     (if f \<in> {SAW_MIN_FREQ .. SAW_MAX_FREQ} \<and> f \<notin> {AXE_MIN_FREQ .. AXE_MAX_FREQ}
         \<and> m > max_saw_magnitude b
      then m else max_saw_magnitude b)
   \<and> max_chainsaw_magnitude (score_bin f m b) =
     (if f \<in> {CHAINSAW_MIN_FREQ .. CHAINSAW_MAX_FREQ} \<and> f \<notin> {AXE_MIN_FREQ .. AXE_MAX_FREQ}
         \<and> f \<notin> {SAW_MIN_FREQ .. SAW_MAX_FREQ} \<and> m > max_chainsaw_magnitude b
      then m else max_chainsaw_magnitude b)"
  by (auto simp: score_bin_def)





text \<open>
  C5. One bin changes at most one band maximum: the result of the loop body is the
  maxima as they were, or with exactly one of them replaced by the bin's magnitude.
  The branch order is axe, handsaw, chainsaw, and the first match wins: a frequency in
  the axe range changes neither the handsaw nor the chainsaw maximum, and a frequency
  in the handsaw range does not change the chainsaw maximum.
\<close>

theorem score_bin_first_match:
  "score_bin f m b \<in> {b, b\<lparr>max_axe_magnitude := m\<rparr>, b\<lparr>max_saw_magnitude := m\<rparr>,
                       b\<lparr>max_chainsaw_magnitude := m\<rparr>}
   \<and> (AXE_MIN_FREQ \<le> f \<and> f \<le> AXE_MAX_FREQ \<longrightarrow>
        max_saw_magnitude (score_bin f m b) = max_saw_magnitude b
        \<and> max_chainsaw_magnitude (score_bin f m b) = max_chainsaw_magnitude b)
   \<and> (SAW_MIN_FREQ \<le> f \<and> f \<le> SAW_MAX_FREQ \<longrightarrow>
        max_chainsaw_magnitude (score_bin f m b) = max_chainsaw_magnitude b)"
  by (simp add: score_bin_def)

text \<open>
  C5, witness: 25 Hz lies in the axe and handsaw ranges and only the axe maximum is
  raised; 55 Hz lies in the axe and chainsaw ranges and the chainsaw maximum is kept.
\<close>

theorem score_bin_first_match_witness:
  "AXE_MIN_FREQ \<le> 25 \<and> 25 \<le> AXE_MAX_FREQ \<and> SAW_MIN_FREQ \<le> 25 \<and> 25 \<le> SAW_MAX_FREQ
   \<and> score_bin 25 1 zero_maxima = zero_maxima\<lparr>max_axe_magnitude := 1\<rparr>
   \<and> max_saw_magnitude (score_bin 25 1 zero_maxima) = max_saw_magnitude zero_maxima
   \<and> AXE_MIN_FREQ \<le> 55 \<and> 55 \<le> AXE_MAX_FREQ
   \<and> CHAINSAW_MIN_FREQ \<le> 55 \<and> 55 \<le> CHAINSAW_MAX_FREQ
   \<and> max_chainsaw_magnitude (score_bin 55 1 zero_maxima) = max_chainsaw_magnitude zero_maxima"
  using score_bin_first_match [of 25 1 zero_maxima] score_bin_first_match [of 55 1 zero_maxima]
  by (simp add: score_bin_def band_consts zero_maxima_def)

subsection \<open>The frequency of a bin\<close>

text \<open>
  The quotient of line 152 is exact only when \<^verbatim>\<open>SAMPLES\<close> divides \<open>5 * i\<close>. Bin 1
  is scored as soon as \<^verbatim>\<open>SAMPLES\<close> is at least 4, and its frequency then differs from
  \<open>5 / SAMPLES\<close> for every value of \<^verbatim>\<open>SAMPLES\<close> but 5.
\<close>

lemma bin_frequency_inexact:
  assumes "4 \<le> samples" and "samples \<noteq> 5"
  shows "1 < samples sdiv 2
         \<and> bin_frequency samples 1
             \<noteq> real_of_int 1 * real_of_int SAMPLING_FREQUENCY / real_of_int samples"
proof (cases "samples = 4")
  case True
  then show ?thesis
    by (simp add: bin_frequency_def SAMPLING_FREQUENCY_def signed_divide_int_def)
next
  case False
  with assms have big: "6 \<le> samples" by simp
  then have "samples sdiv 2 = samples div 2" and "(5::int) sdiv samples = 0"
    by (simp_all add: signed_divide_int_def sgn_if abs_if)
  with big show ?thesis
    by (simp add: bin_frequency_def SAMPLING_FREQUENCY_def)
qed

text \<open>
  C4 is not what the code computes. With \<^verbatim>\<open>SAMPLES = 1024\<close>, bin 1 is scored, the
  exact value of \<open>1 * SAMPLING_FREQUENCY / 1024\<close> is \<open>5 / 1024\<close>, and the frequency
  that line 152 computes is 0: the division is done on integers.
\<close>

theorem bin_frequency_truncated:
  "1 < (1024::int) sdiv 2
   \<and> bin_frequency 1024 1 = 0
   \<and> real_of_int 1 * real_of_int SAMPLING_FREQUENCY / real_of_int 1024 = 5 / 1024
   \<and> bin_frequency 1024 1 \<noteq> real_of_int 1 * real_of_int SAMPLING_FREQUENCY / real_of_int 1024"
  by (simp add: bin_frequency_def SAMPLING_FREQUENCY_def signed_divide_int_def)

section \<open>Properties of the acquisition\<close>

subsection \<open>One block\<close>

lemma store_sample_in_bounds:
  assumes "0 \<le> idx" and "idx < int (length buf)"
  shows "store_sample buf idx v = Inr (buf[nat idx := v])"
  using assms by (simp add: store_sample_def)

lemma extract_block_capacity:
  assumes "0 \<le> samplesRead" and "MAX_SAMPLES cfg \<le> int (length buf)"
  shows "\<exists>n buf'. extract_block cfg fifoBuffer i samplesRead buf = Inr (n, buf')
           \<and> samplesRead \<le> n \<and> n \<le> max samplesRead (MAX_SAMPLES cfg)
           \<and> length buf' = length buf"
  using assms
proof (induction cfg fifoBuffer i samplesRead buf rule: extract_block.induct)
  case (1 cfg fifoBuffer i samplesRead buf)
  show ?case
  proof (cases "i \<le> BLOCK_SIZE cfg - 6 \<and> samplesRead < MAX_SAMPLES cfg")
    case False
    have "extract_block cfg fifoBuffer i samplesRead buf = Inr (samplesRead, buf)"
      by (subst extract_block.simps, subst if_not_P [OF False]) (rule refl)
    then show ?thesis by simp
  next
    case True
    let ?v = "real_of_int (sint (accelX fifoBuffer i)) / 16384"
    let ?buf = "buf[nat samplesRead := ?v]"
    have st: "store_sample buf samplesRead ?v = Inr ?buf"
      using True "1.prems" by (intro store_sample_in_bounds) simp_all
    have "\<exists>n buf'. extract_block cfg fifoBuffer (i + 6) (samplesRead + 1) ?buf = Inr (n, buf')
            \<and> samplesRead + 1 \<le> n \<and> n \<le> max (samplesRead + 1) (MAX_SAMPLES cfg)
            \<and> length buf' = length ?buf"
      using "1.prems" by (intro "1.IH" [OF True st]) simp_all
    then obtain n buf' where
      rec: "extract_block cfg fifoBuffer (i + 6) (samplesRead + 1) ?buf = Inr (n, buf')"
      and bounds: "samplesRead + 1 \<le> n" "n \<le> max (samplesRead + 1) (MAX_SAMPLES cfg)"
        "length buf' = length ?buf"
      by blast
    have "extract_block cfg fifoBuffer i samplesRead buf = Inr (n, buf')"
      using True st rec by (simp add: extract_block.simps [of cfg fifoBuffer i samplesRead buf])
    with bounds True show ?thesis by auto
  qed
qed

lemma extract_block_full:
  assumes "MAX_SAMPLES cfg \<le> samplesRead"
  shows "extract_block cfg fifoBuffer i samplesRead buf = Inr (samplesRead, buf)"
  using assms by (simp add: extract_block.simps [of cfg fifoBuffer i samplesRead buf])

subsection \<open>The polling loop\<close>

text \<open>
  An invariant rule for the polling loop: a property of the sample count and the state
  that holds at the start and is kept by a clock reading, by a queue-depth reading and by
  the extraction of one block holds when the loop returns.
\<close>

lemma acquire_loop_invariant:
  assumes run: "acquire_loop cfg startMillis samplesRead w = Inr (n, w')"
    and init: "I cfg samplesRead w"
    and step_millis: "\<And>c s v t v'. I c s v \<Longrightarrow> millis v = Inr (t, v') \<Longrightarrow> I c s v'"
    and step_count: "\<And>c s v k v'. I c s v \<Longrightarrow> getFIFOCount v = Inr (k, v') \<Longrightarrow> I c s v'"
    and step_block: "\<And>c s v fifoBuffer v' k buf. I c s v \<Longrightarrow>
        getFIFOBytes v = Inr (fifoBuffer, v') \<Longrightarrow>
        extract_block c fifoBuffer 0 s (inputBuffer (emit MpuResetFIFO v')) = Inr (k, buf) \<Longrightarrow>
        I c k ((emit MpuResetFIFO v')\<lparr>inputBuffer := buf\<rparr>)"
  shows "I cfg n w'"
  using run init
proof (induction cfg startMillis samplesRead w rule: acquire_loop.induct)
  case (1 cfg startMillis samplesRead w)
  from "1.prems"(1) obtain now w1 where m: "millis w = Inr (now, w1)"
    by (subst (asm) acquire_loop.simps) (auto split: sum.splits)
  have i1: "I cfg samplesRead w1" using "1.prems"(2) m by (rule step_millis)
  show ?case
  proof (cases "now - startMillis < PHASE_DURATION cfg")
    case False
    with "1.prems"(1) m have "n = samplesRead \<and> w' = w1"
      by (subst (asm) acquire_loop.simps) simp
    with i1 show ?thesis by simp
  next
    case inside: True
    with "1.prems"(1) m obtain fifoCount w2 where c: "getFIFOCount w1 = Inr (fifoCount, w2)"
      by (subst (asm) acquire_loop.simps) (auto split: sum.splits)
    have i2: "I cfg samplesRead w2" using i1 c by (rule step_count)
    show ?thesis
    proof (cases "uint fifoCount \<ge> BLOCK_SIZE cfg")
      case False
      with "1.prems"(1) m inside c have "acquire_loop cfg startMillis samplesRead w2 = Inr (n, w')"
        by (subst (asm) acquire_loop.simps) simp
      from "1.IH"(2) [OF m refl inside c refl False this i2] show ?thesis .
    next
      case full: True
      with "1.prems"(1) m inside c obtain fifoBuffer w3 k buf where
        b: "getFIFOBytes w2 = Inr (fifoBuffer, w3)"
        and x: "extract_block cfg fifoBuffer 0 samplesRead (inputBuffer (emit MpuResetFIFO w3))
                  = Inr (k, buf)"
        and rec: "acquire_loop cfg startMillis k ((emit MpuResetFIFO w3)\<lparr>inputBuffer := buf\<rparr>)
                  = Inr (n, w')"
        by (subst (asm) acquire_loop.simps) (auto split: sum.splits)
      have i3: "I cfg k ((emit MpuResetFIFO w3)\<lparr>inputBuffer := buf\<rparr>)"
        using i2 b x by (rule step_block)
      from "1.IH"(1) [OF m refl inside c refl full b refl x refl rec i3] show ?thesis .
    qed
  qed
qed

lemma millis_fault: "millis w = Inl e \<Longrightarrow> e = ScriptExhausted"
  by (auto simp: millis_def split: list.splits)

lemma getFIFOCount_fault: "getFIFOCount w = Inl e \<Longrightarrow> e = ScriptExhausted"
  by (auto simp: getFIFOCount_def split: list.splits)

lemma getFIFOBytes_fault: "getFIFOBytes w = Inl e \<Longrightarrow> e = ScriptExhausted"
  by (auto simp: getFIFOBytes_def split: list.splits)

lemma frame_buffer_length:
  "acquisition_frame w w' \<Longrightarrow> length (inputBuffer w') = length (inputBuffer w)"
  by (simp add: acquisition_frame_def)

lemma acquire_loop_no_fault:
  assumes "0 \<le> samplesRead" and "MAX_SAMPLES cfg \<le> int (length (inputBuffer w))"
  shows "acquire_loop cfg startMillis samplesRead w \<noteq> Inl OutOfBounds"
  using assms
proof (induction cfg startMillis samplesRead w rule: acquire_loop.induct)
  case (1 cfg startMillis samplesRead w)
  note unfold = acquire_loop.simps [of cfg startMillis samplesRead w]
  show ?case
  proof (cases "millis w")
    case (Inl e)
    then show ?thesis using millis_fault [OF Inl] by (simp add: unfold)
  next
    case (Inr r)
    obtain now w1 where r: "r = (now, w1)" by (cases r)
    have m: "millis w = Inr (now, w1)" using Inr r by simp
    have l1: "MAX_SAMPLES cfg \<le> int (length (inputBuffer w1))"
      using "1.prems"(2) frame_buffer_length [OF millis_frame [OF m]] by simp
    show ?thesis
    proof (cases "now - startMillis < PHASE_DURATION cfg")
      case False
      then show ?thesis using m by (simp add: unfold)
    next
      case inside: True
      show ?thesis
      proof (cases "getFIFOCount w1")
        case (Inl e)
        then show ?thesis using m inside getFIFOCount_fault [OF Inl] by (simp add: unfold)
      next
        case (Inr r2)
        obtain fifoCount w2 where r2: "r2 = (fifoCount, w2)" by (cases r2)
        have c: "getFIFOCount w1 = Inr (fifoCount, w2)" using Inr r2 by simp
        have l2: "MAX_SAMPLES cfg \<le> int (length (inputBuffer w2))"
          using l1 frame_buffer_length [OF getFIFOCount_frame [OF c]] by simp
        show ?thesis
        proof (cases "uint fifoCount \<ge> BLOCK_SIZE cfg")
          case False
          have "acquire_loop cfg startMillis samplesRead w2 \<noteq> Inl OutOfBounds"
            using "1.IH"(2) [OF m refl inside c refl False "1.prems"(1) l2] .
          then show ?thesis using m inside c False by (simp add: unfold)
        next
          case full: True
          show ?thesis
          proof (cases "getFIFOBytes w2")
            case (Inl e)
            then show ?thesis
              using m inside c full getFIFOBytes_fault [OF Inl] by (simp add: unfold)
          next
            case (Inr r3)
            obtain fifoBuffer w3 where r3: "r3 = (fifoBuffer, w3)" by (cases r3)
            have b: "getFIFOBytes w2 = Inr (fifoBuffer, w3)" using Inr r3 by simp
            have l3: "MAX_SAMPLES cfg \<le> int (length (inputBuffer (emit MpuResetFIFO w3)))"
              using l2 frame_buffer_length [OF getFIFOBytes_frame [OF b]] by (simp add: emit_def)
            from extract_block_capacity [OF "1.prems"(1) l3, of fifoBuffer 0]
            obtain k buf where
              x: "extract_block cfg fifoBuffer 0 samplesRead (inputBuffer (emit MpuResetFIFO w3))
                    = Inr (k, buf)"
              and k: "samplesRead \<le> k"
              and len: "length buf = length (inputBuffer (emit MpuResetFIFO w3))"
              by blast
            have "acquire_loop cfg startMillis k ((emit MpuResetFIFO w3)\<lparr>inputBuffer := buf\<rparr>)
                    \<noteq> Inl OutOfBounds"
              using "1.IH"(1) [OF m refl inside c refl full b refl x refl] "1.prems"(1) k l3 len
              by simp
            then show ?thesis using m inside c full b x by (simp add: unfold)
          qed
        qed
      qed
    qed
  qed
qed

lemma acquire_loop_count:
  assumes run: "acquire_loop cfg startMillis samplesRead w = Inr (n, w')"
    and "0 \<le> samplesRead" and "MAX_SAMPLES cfg \<le> int (length (inputBuffer w))"
  shows "samplesRead \<le> n \<and> n \<le> max samplesRead (MAX_SAMPLES cfg)"
proof -
  define I where "I = (\<lambda>(c::config) (k::int) (v::world). samplesRead \<le> k \<and> k \<le> max samplesRead (MAX_SAMPLES c)
      \<and> MAX_SAMPLES c \<le> int (length (inputBuffer v)))"
  have "I cfg n w'"
  proof (rule acquire_loop_invariant [OF run, of I])
    show "I cfg samplesRead w" using assms by (simp add: I_def)
  next
    fix c s v t v' assume "I c s v" "millis v = Inr (t, v')"
    then show "I c s v'"
      using frame_buffer_length [OF millis_frame] by (simp add: I_def)
  next
    fix c s v k v' assume "I c s v" "getFIFOCount v = Inr (k, v')"
    then show "I c s v'"
      using frame_buffer_length [OF getFIFOCount_frame] by (simp add: I_def)
  next
    fix c s v fifoBuffer v' k buf
    assume i: "I c s v" and b: "getFIFOBytes v = Inr (fifoBuffer, v')"
      and x: "extract_block c fifoBuffer 0 s (inputBuffer (emit MpuResetFIFO v')) = Inr (k, buf)"
    have l: "MAX_SAMPLES c \<le> int (length (inputBuffer (emit MpuResetFIFO v')))"
      using i frame_buffer_length [OF getFIFOBytes_frame [OF b]] by (simp add: I_def emit_def)
    have s0: "0 \<le> s" using i assms(2) by (simp add: I_def)
    from extract_block_capacity [OF s0 l, of fifoBuffer 0] x
    have "s \<le> k \<and> k \<le> max s (MAX_SAMPLES c)
          \<and> length buf = length (inputBuffer (emit MpuResetFIFO v'))"
      by auto
    with i l show "I c k ((emit MpuResetFIFO v')\<lparr>inputBuffer := buf\<rparr>)"
      by (auto simp: I_def)
  qed
  then show ?thesis by (simp add: I_def)
qed

lemma acquire_loop_full:
  assumes run: "acquire_loop cfg startMillis samplesRead w = Inr (n, w')"
    and full: "MAX_SAMPLES cfg \<le> samplesRead"
  shows "n = samplesRead \<and> inputBuffer w' = inputBuffer w"
proof -
  define I where "I = (\<lambda>(c::config) (k::int) (v::world). MAX_SAMPLES c \<le> samplesRead \<longrightarrow>
      k = samplesRead \<and> inputBuffer v = inputBuffer w)"
  have "I cfg n w'"
  proof (rule acquire_loop_invariant [OF run, of I])
    show "I cfg samplesRead w" by (simp add: I_def)
  next
    fix c s v t v' assume "I c s v" "millis v = Inr (t, v')"
    then show "I c s v'"
      by (auto simp: I_def millis_def split: list.splits)
  next
    fix c s v k v' assume "I c s v" "getFIFOCount v = Inr (k, v')"
    then show "I c s v'"
      by (auto simp: I_def getFIFOCount_def emit_def split: list.splits)
  next
    fix c s v fifoBuffer v' k buf
    assume i: "I c s v" and b: "getFIFOBytes v = Inr (fifoBuffer, v')"
      and x: "extract_block c fifoBuffer 0 s (inputBuffer (emit MpuResetFIFO v')) = Inr (k, buf)"
    show "I c k ((emit MpuResetFIFO v')\<lparr>inputBuffer := buf\<rparr>)"
      unfolding I_def
    proof
      assume f: "MAX_SAMPLES c \<le> samplesRead"
      with i have s: "s = samplesRead" and same: "inputBuffer v = inputBuffer w"
        by (simp_all add: I_def)
      have "inputBuffer v' = inputBuffer v"
        using b by (auto simp: getFIFOBytes_def emit_def split: list.splits)
      moreover have "k = s \<and> buf = inputBuffer (emit MpuResetFIFO v')"
        using x f s extract_block_full [of c s fifoBuffer 0] by simp
      ultimately show "k = samplesRead
          \<and> inputBuffer ((emit MpuResetFIFO v')\<lparr>inputBuffer := buf\<rparr>) = inputBuffer w"
        using s same by (simp add: emit_def)
    qed
  qed
  then show ?thesis using full by (simp add: I_def)
qed

text \<open>
  C9. With \<^verbatim>\<open>inputBuffer\<close> an array of at least \<^verbatim>\<open>MAX_SAMPLES\<close> entries, the
  acquisition never writes outside it. From a sample count that is not negative (it starts
  at 0), the polling loop keeps the count at or below \<^verbatim>\<open>MAX_SAMPLES\<close> and the size
  of the buffer unchanged. Once the count has reached \<^verbatim>\<open>MAX_SAMPLES\<close>, a further
  block stores nothing, and the loop returns the same count and the same buffer
  contents.
\<close>

theorem sample_buffer_within_capacity:
  assumes "MAX_SAMPLES cfg \<le> int (length (inputBuffer w))" and "0 \<le> samplesRead"
  shows "readAccelerometerDataForPhase cfg phase w \<noteq> Inl OutOfBounds
         \<and> acquire_loop cfg startMillis samplesRead w \<noteq> Inl OutOfBounds
         \<and> (\<forall>n w'. acquire_loop cfg startMillis samplesRead w = Inr (n, w') \<longrightarrow>
              samplesRead \<le> n \<and> n \<le> max samplesRead (MAX_SAMPLES cfg)
              \<and> length (inputBuffer w') = length (inputBuffer w)
              \<and> (MAX_SAMPLES cfg \<le> samplesRead \<longrightarrow>
                   n = samplesRead \<and> inputBuffer w' = inputBuffer w))
         \<and> (\<forall>fifoBuffer i buf. MAX_SAMPLES cfg \<le> samplesRead \<longrightarrow>
              extract_block cfg fifoBuffer i samplesRead buf = Inr (samplesRead, buf))"
proof (intro conjI allI impI)
  show "readAccelerometerDataForPhase cfg phase w \<noteq> Inl OutOfBounds"
  proof (cases "millis w")
    case (Inl e)
    then show ?thesis
      using millis_fault [OF Inl] by (simp add: readAccelerometerDataForPhase_def)
  next
    case (Inr r)
    obtain t w1 where m: "millis w = Inr (t, w1)" using Inr by (cases r) simp
    have "MAX_SAMPLES cfg \<le> int (length (inputBuffer w1))"
      using assms(1) frame_buffer_length [OF millis_frame [OF m]] by simp
    then have "acquire_loop cfg t 0 w1 \<noteq> Inl OutOfBounds"
      by (intro acquire_loop_no_fault) simp_all
    then show ?thesis
      using m by (auto simp: readAccelerometerDataForPhase_def split: sum.splits)
  qed
next
  show "acquire_loop cfg startMillis samplesRead w \<noteq> Inl OutOfBounds"
    using assms(2,1) by (rule acquire_loop_no_fault)
next
  fix n w' assume run: "acquire_loop cfg startMillis samplesRead w = Inr (n, w')"
  show "samplesRead \<le> n" "n \<le> max samplesRead (MAX_SAMPLES cfg)"
    using acquire_loop_count [OF run assms(2,1)] by simp_all
  show "length (inputBuffer w') = length (inputBuffer w)"
    using acquire_loop_frame [OF run] by (rule frame_buffer_length)
  assume "MAX_SAMPLES cfg \<le> samplesRead"
  from acquire_loop_full [OF run this]
  show "n = samplesRead" "inputBuffer w' = inputBuffer w" by simp_all
next
  fix fifoBuffer i buf assume "MAX_SAMPLES cfg \<le> samplesRead"
  then show "extract_block cfg fifoBuffer i samplesRead buf = Inr (samplesRead, buf)"
    by (rule extract_block_full)
qed

lemma example_block_first: "(signed (accelX example_block 0) :: real) = 16384"
  by (simp add: accelX_def example_block_def)

lemma example_block_second: "(signed (accelX example_block 6) :: real) = - 16384"
  by (simp add: accelX_def example_block_def)

lemma example_acquire_from_empty:
  "acquire_loop example_config 1000 0 (example_world\<lparr>millis_script := [1010, 1020, 1030, 1100]\<rparr>)
     = Inr (2, example_acquired)"
  by (simp add: example_defs primitive_defs acquire_loop.simps extract_block.simps example_block_first example_block_second)

lemma example_acquire_from_full:
  "acquire_loop example_config 1000 2 (example_world\<lparr>millis_script := [1010, 1020, 1030, 1100]\<rparr>)
     = Inr (2, example_acquired\<lparr>inputBuffer := [0, 0]\<rparr>)"
  by (simp add: example_defs primitive_defs acquire_loop.simps extract_block.simps)

lemma example_read:
  "readAccelerometerDataForPhase example_config 1 example_world = Inr example_acquired"
  by (simp add: example_defs primitive_defs readAccelerometerDataForPhase_def
      acquire_loop.simps extract_block.simps example_block_first example_block_second)

text \<open>
  C9, witness: in the example the first block fills the two entries of the buffer and
  the second block, read while the buffer is full, is ignored; a loop entered with a full
  count leaves the buffer as it was.
\<close>

theorem sample_buffer_within_capacity_witness:
  "MAX_SAMPLES example_config \<le> int (length (inputBuffer example_world))
   \<and> readAccelerometerDataForPhase example_config 1 example_world = Inr example_acquired
   \<and> acquire_loop example_config 1000 0
        (example_world\<lparr>millis_script := [1010, 1020, 1030, 1100]\<rparr>) = Inr (2, example_acquired)
   \<and> inputBuffer example_acquired = [1, -1]
   \<and> (2::int) \<le> max 0 (MAX_SAMPLES example_config)
   \<and> MAX_SAMPLES example_config \<le> 2
   \<and> acquire_loop example_config 1000 2
        (example_world\<lparr>millis_script := [1010, 1020, 1030, 1100]\<rparr>)
        = Inr (2, example_acquired\<lparr>inputBuffer := [0, 0]\<rparr>)
   \<and> extract_block example_config example_block 0 2 [0, 0] = Inr (2, [0, 0])"
  using sample_buffer_within_capacity
      [of example_config "example_world\<lparr>millis_script := [1010, 1020, 1030, 1100]\<rparr>" 0 1 1000]
    sample_buffer_within_capacity
      [of example_config "example_world\<lparr>millis_script := [1010, 1020, 1030, 1100]\<rparr>" 2 1 1000]
    example_acquire_from_empty example_acquire_from_full example_read
  by (simp add: example_defs)

section \<open>Properties of the scheduler\<close>

subsection \<open>Single steps of the attempt loop\<close>

lemma initializeMPU_answer:
  assumes "connection_script w = ok # rest"
  shows "initializeMPU (toggleSensorPower True w) =
           Inr (ok, w\<lparr>connection_script := rest,
                      trace := trace w @ [ToggleSensorPower True, MpuInitialize, MpuTestConnection ok]
                                 @ (if ok then [MpuConfigureFIFO] else [])\<rparr>)"
  using assms
  by (simp add: initializeMPU_def testConnection_def toggleSensorPower_def emit_def)

lemma attempt_loop_exit:
  assumes "phaseCompleted \<or> 3 \<le> retryCount"
  shows "attempt_loop cfg fft_execute phase phaseCompleted retryCount w =
           Inr ((phaseCompleted, retryCount), w)"
  using assms
  by (subst attempt_loop.simps) auto

lemma attempt_loop_init_failure:
  assumes "retryCount < 3" and "connection_script w = False # rest"
  shows "attempt_loop cfg fft_execute phase False retryCount w =
           attempt_loop cfg fft_execute phase False (retryCount + 1)
             (w\<lparr>connection_script := rest,
                trace := trace w @ [ToggleSensorPower True, MpuInitialize, MpuTestConnection False]\<rparr>)"
  using assms(1) initializeMPU_answer [OF assms(2)]
  by (subst attempt_loop.simps) simp

lemma attempt_loop_three_failures:
  assumes "connection_script w = False # False # False # rest"
  shows "attempt_loop cfg fft_execute phase False 0 w =
           Inr ((False, 3),
                w\<lparr>connection_script := rest,
                  trace := trace w @
                    [ToggleSensorPower True, MpuInitialize, MpuTestConnection False,
                     ToggleSensorPower True, MpuInitialize, MpuTestConnection False,
                     ToggleSensorPower True, MpuInitialize, MpuTestConnection False]\<rparr>)"
  using assms by (simp add: attempt_loop_init_failure attempt_loop_exit)

lemma phase_iteration_three_failures:
  assumes "connection_script w = False # False # False # rest"
  shows "phase_iteration cfg fft_execute phase w =
           Inr (w\<lparr>connection_script := rest,
                  trace := trace w @
                    [RecordingPhase phase (remainingCycles w),
                     ToggleSensorPower True, MpuInitialize, MpuTestConnection False,
                     ToggleSensorPower True, MpuInitialize, MpuTestConnection False,
                     ToggleSensorPower True, MpuInitialize, MpuTestConnection False],
                  remainingCycles := remainingCycles w - 1\<rparr>)"
  using assms
    attempt_loop_three_failures [of "emit (RecordingPhase phase (remainingCycles w)) w" rest]
  by (simp add: phase_iteration_def emit_def)

text \<open>
  C6. When the next three connection tests fail, the attempt loop of a phase makes three
  attempts, each of them power on, initialise and test, and returns with
  \<^verbatim>\<open>phaseCompleted\<close> false and \<^verbatim>\<open>retryCount\<close> 3: nothing is acquired, stored or
  classified. The phase iteration then only decrements \<^verbatim>\<open>remainingCycles\<close>, once.
\<close>

theorem three_init_failures_abandon_phase:
  assumes "connection_script w = False # False # False # rest"
  shows "attempt_loop cfg fft_execute phase False 0 w =
           Inr ((False, 3),
                w\<lparr>connection_script := rest,
                  trace := trace w @
                    [ToggleSensorPower True, MpuInitialize, MpuTestConnection False,
                     ToggleSensorPower True, MpuInitialize, MpuTestConnection False,
                     ToggleSensorPower True, MpuInitialize, MpuTestConnection False]\<rparr>)
         \<and> phase_iteration cfg fft_execute phase w =
           Inr (w\<lparr>connection_script := rest,
                  trace := trace w @
                    [RecordingPhase phase (remainingCycles w),
                     ToggleSensorPower True, MpuInitialize, MpuTestConnection False,
                     ToggleSensorPower True, MpuInitialize, MpuTestConnection False,
                     ToggleSensorPower True, MpuInitialize, MpuTestConnection False],
                  remainingCycles := remainingCycles w - 1\<rparr>)"
  using attempt_loop_three_failures [OF assms] phase_iteration_three_failures [OF assms]
  by (rule conjI)

text \<open>
  C6, witness: a sensor that fails its first three connection tests.
\<close>

theorem three_init_failures_abandon_phase_witness:
  "connection_script example_failing = False # False # False # [True]
   \<and> attempt_loop example_config example_fft 1 False 0 example_failing =
       Inr ((False, 3),
            example_failing\<lparr>connection_script := [True],
              trace := [ToggleSensorPower True, MpuInitialize, MpuTestConnection False,
                        ToggleSensorPower True, MpuInitialize, MpuTestConnection False,
                        ToggleSensorPower True, MpuInitialize, MpuTestConnection False]\<rparr>)
   \<and> phase_iteration example_config example_fft 1 example_failing =
       Inr (example_failing\<lparr>connection_script := [True],
              trace := [RecordingPhase 1 1,
                        ToggleSensorPower True, MpuInitialize, MpuTestConnection False,
                        ToggleSensorPower True, MpuInitialize, MpuTestConnection False,
                        ToggleSensorPower True, MpuInitialize, MpuTestConnection False],
              remainingCycles := 0\<rparr>)"
  using three_init_failures_abandon_phase
      [of example_failing "[True]" example_config example_fft 1]
  by (simp add: example_failing_def example_defs)

text \<open>
  C8. Entered with \<^verbatim>\<open>remainingCycles\<close> at or below 0, \<^verbatim>\<open>monitorSensors\<close> calls
  \<^verbatim>\<open>quickBlinkAndHalt\<close> and returns: the trace gains that one event, and the rest of
  the state, the scripts of the sensor and of the file system included, is untouched.
\<close>

theorem exhausted_budget_halts:
  assumes "remainingCycles w \<le> 0"
  shows "monitorSensors cfg fft_execute w = Inr (w\<lparr>trace := trace w @ [QuickBlinkAndHalt]\<rparr>)"
  using assms by (simp add: monitorSensors_def emit_def)

text \<open>
  C8, witness: the example with no cycle left.
\<close>

theorem exhausted_budget_halts_witness:
  "remainingCycles (example_world\<lparr>remainingCycles := 0\<rparr>) \<le> 0
   \<and> monitorSensors example_config example_fft (example_world\<lparr>remainingCycles := 0\<rparr>) =
       Inr (example_world\<lparr>remainingCycles := 0, trace := [QuickBlinkAndHalt]\<rparr>)"
  using exhausted_budget_halts [of "example_world\<lparr>remainingCycles := 0\<rparr>" example_config example_fft]
  by (simp add: example_defs)

subsection \<open>Whole phases\<close>

text \<open>
  An invariant rule for the attempt loop: a property of the two loop variables and the
  state that holds at the start and is kept by a failed initialisation, by a successful
  attempt and by a failed persistence call with its remount holds when the loop returns.
\<close>

lemma attempt_loop_invariant:
  assumes run: "attempt_loop cfg fft_execute phase phaseCompleted retryCount w = Inr ((pc', r'), w')"
    and init: "I phaseCompleted retryCount w"
    and failure: "\<And>r v v1. I False r v \<Longrightarrow> r < 3 \<Longrightarrow>
        initializeMPU (toggleSensorPower True v) = Inr (False, v1) \<Longrightarrow> I False (r + 1) v1"
    and success: "\<And>c f p r v v1 v2 v3. I False r v \<Longrightarrow> r < 3 \<Longrightarrow>
        initializeMPU (toggleSensorPower True v) = Inr (True, v1) \<Longrightarrow>
        readAccelerometerDataForPhase c p v1 = Inr v2 \<Longrightarrow>
        logDataToSPIFFS p v2 = Inr (True, v3) \<Longrightarrow>
        I True r (call_performFFT c f (toggleSensorPower False v3))"
    and remount: "\<And>c p r v v1 v2 v3 mounted v4. I False r v \<Longrightarrow> r < 3 \<Longrightarrow>
        initializeMPU (toggleSensorPower True v) = Inr (True, v1) \<Longrightarrow>
        readAccelerometerDataForPhase c p v1 = Inr v2 \<Longrightarrow>
        logDataToSPIFFS p v2 = Inr (False, v3) \<Longrightarrow>
        SPIFFS_begin True (SPIFFS_end v3) = Inr (mounted, v4) \<Longrightarrow> I False r v4"
  shows "I pc' r' w'"
  using run init
proof (induction cfg fft_execute phase phaseCompleted retryCount w rule: attempt_loop.induct)
  case (1 cfg fft_execute phase phaseCompleted retryCount w)
  note unfold = attempt_loop.simps [of cfg fft_execute phase phaseCompleted retryCount w]
  show ?case
  proof (cases "\<not> phaseCompleted \<and> retryCount < 3")
    case False
    then have "attempt_loop cfg fft_execute phase phaseCompleted retryCount w
                 = Inr ((phaseCompleted, retryCount), w)"
      by (intro attempt_loop_exit) auto
    with "1.prems" show ?thesis by simp
  next
    case guard: True
    then have pc: "phaseCompleted = False" and r3: "retryCount < 3" by simp_all
    from "1.prems"(1) guard obtain initialized w1 where
      i: "initializeMPU (toggleSensorPower True w) = Inr (initialized, w1)"
      by (subst (asm) unfold) (auto split: sum.splits)
    show ?thesis
    proof (cases initialized)
      case False
      with "1.prems"(1) guard i
      have rec: "attempt_loop cfg fft_execute phase phaseCompleted (retryCount + 1) w1
                   = Inr ((pc', r'), w')"
        by (subst (asm) unfold) simp
      have "I phaseCompleted (retryCount + 1) w1"
        using failure [of retryCount w w1] "1.prems"(2) pc r3 i False by simp
      from "1.IH"(1) [OF guard i refl _ rec this] False show ?thesis by simp
    next
      case ok: True
      with "1.prems"(1) guard i obtain w2 loggingSuccess w3 where
        rd: "readAccelerometerDataForPhase cfg phase w1 = Inr w2"
        and lg: "logDataToSPIFFS phase w2 = Inr (loggingSuccess, w3)"
        by (subst (asm) unfold) (auto split: sum.splits)
      show ?thesis
      proof (cases loggingSuccess)
        case True
        with "1.prems"(1) guard i ok rd lg
        have rec: "attempt_loop cfg fft_execute phase True retryCount
                     (call_performFFT cfg fft_execute (toggleSensorPower False w3))
                   = Inr ((pc', r'), w')"
          by (subst (asm) unfold) simp
        have "I True retryCount (call_performFFT cfg fft_execute (toggleSensorPower False w3))"
          using success [of retryCount w w1 cfg phase w2 w3 fft_execute]
            "1.prems"(2) pc r3 i ok rd lg True by simp
        from "1.IH"(2) [OF guard i refl _ rd lg refl True rec this] ok show ?thesis by simp
      next
        case lf: False
        with "1.prems"(1) guard i ok rd lg obtain mounted w4 where
          mt: "SPIFFS_begin True (SPIFFS_end w3) = Inr (mounted, w4)"
          by (subst (asm) unfold) (auto split: sum.splits)
        have i4: "I False retryCount w4"
          using remount [of retryCount w w1 cfg phase w2 w3 mounted w4]
            "1.prems"(2) pc r3 i ok rd lg lf mt by simp
        show ?thesis
        proof (cases mounted)
          case False
          with "1.prems"(1) guard i ok rd lg lf mt
          have "pc' = phaseCompleted \<and> r' = retryCount \<and> w' = w4"
            by (subst (asm) unfold) simp
          with i4 pc show ?thesis by simp
        next
          case True
          with "1.prems"(1) guard i ok rd lg lf mt
          have rec: "attempt_loop cfg fft_execute phase phaseCompleted retryCount w4
                       = Inr ((pc', r'), w')"
            by (subst (asm) unfold) simp
          from "1.IH"(3) [OF guard i refl _ rd lg refl lf mt refl _ rec] i4 pc ok True
          show ?thesis by simp
        qed
      qed
    qed
  qed
qed

lemma initializeMPU_shape:
  assumes "initializeMPU (toggleSensorPower True v) = Inr (ok, v1)"
  shows "remainingCycles v1 = remainingCycles v
         \<and> trace v1 = trace v @ [ToggleSensorPower True, MpuInitialize, MpuTestConnection ok]
                        @ (if ok then [MpuConfigureFIFO] else [])"
  using assms
  by (auto simp: initializeMPU_def testConnection_def toggleSensorPower_def emit_def
      split: list.splits if_splits)

lemma logDataToSPIFFS_shape:
  assumes "logDataToSPIFFS p v = Inr (ok, v1)"
  shows "remainingCycles v1 = remainingCycles v \<and> trace v1 = trace v @ [LogDataToSPIFFS p ok]"
  using assms by (auto simp: logDataToSPIFFS_def emit_def split: list.splits)

lemma remount_shape:
  assumes "SPIFFS_begin True (SPIFFS_end v) = Inr (mounted, v1)"
  shows "remainingCycles v1 = remainingCycles v
         \<and> trace v1 = trace v @ [SpiffsEnd, SpiffsBegin True mounted]"
  using assms by (auto simp: SPIFFS_begin_def SPIFFS_end_def emit_def split: list.splits)

lemma call_performFFT_shape:
  "remainingCycles (call_performFFT c f (toggleSensorPower False v)) = remainingCycles v
   \<and> trace (call_performFFT c f (toggleSensorPower False v)) =
       trace v @ [ToggleSensorPower False, Report (performFFT c f (inputBuffer v))]"
  by (simp add: call_performFFT_def toggleSensorPower_def emit_def)

lemma readAccelerometerDataForPhase_shape:
  assumes "readAccelerometerDataForPhase c p v = Inr v1"
  shows "remainingCycles v1 = remainingCycles v
         \<and> (\<exists>es. trace v1 = trace v @ es \<and> list_all acquisition_event es)"
proof -
  have f: "acquisition_frame v v1"
    using assms by (rule readAccelerometerDataForPhase_frame)
  then have "trace v1 = trace v @ drop (length (trace v)) (trace v1)"
    unfolding acquisition_frame_def by (metis append_take_drop_id)
  with f show ?thesis
    unfolding acquisition_frame_def by blast
qed

lemma acquisition_events_filtered:
  assumes "list_all acquisition_event es"
  shows "filter is_report es = [] \<and> filter is_recording es = [] \<and> filter is_failed_log es = []
         \<and> filter is_remount es = [] \<and> filter is_failed_init es = []"
  using assms
  by (induction es) (auto simp: acquisition_event_def split: event.splits)

lemma attempt_loop_summary:
  assumes run: "attempt_loop cfg fft_execute phase False 0 w = Inr ((pc, r), w')"
  shows "remainingCycles w' = remainingCycles w
         \<and> (\<exists>es. trace w' = trace w @ es \<and> phase_summary es pc r)"
proof -
  define I where "I = (\<lambda>(c::bool) (k::int) (v::world). remainingCycles v = remainingCycles w
      \<and> (\<exists>es. trace v = trace w @ es \<and> phase_summary es c k))"
  have "I pc r w'"
  proof (rule attempt_loop_invariant [OF run, of I])
    show "I False 0 w" by (simp add: I_def phase_summary_def)
  next
    fix k v v1
    assume "I False k v" and "initializeMPU (toggleSensorPower True v) = Inr (False, v1)"
    then show "I False (k + 1) v1"
      using initializeMPU_shape [of v False v1] by (auto simp: I_def phase_summary_def)
  next
    fix c f p k v v1 v2 v3
    assume i: "I False k v"
      and "initializeMPU (toggleSensorPower True v) = Inr (True, v1)"
      and "readAccelerometerDataForPhase c p v1 = Inr v2"
      and "logDataToSPIFFS p v2 = Inr (True, v3)"
    then show "I True k (call_performFFT c f (toggleSensorPower False v3))"
      using initializeMPU_shape [of v True v1] readAccelerometerDataForPhase_shape [of c p v1 v2]
        logDataToSPIFFS_shape [of p v2 True v3] call_performFFT_shape [of c f v3]
      by (auto simp: I_def phase_summary_def dest!: acquisition_events_filtered)
  next
    fix c p k v v1 v2 v3 mounted v4
    assume i: "I False k v"
      and "initializeMPU (toggleSensorPower True v) = Inr (True, v1)"
      and "readAccelerometerDataForPhase c p v1 = Inr v2"
      and "logDataToSPIFFS p v2 = Inr (False, v3)"
      and "SPIFFS_begin True (SPIFFS_end v3) = Inr (mounted, v4)"
    then show "I False k v4"
      using initializeMPU_shape [of v True v1] readAccelerometerDataForPhase_shape [of c p v1 v2]
        logDataToSPIFFS_shape [of p v2 False v3] remount_shape [of v3 mounted v4]
      by (auto simp: I_def phase_summary_def dest!: acquisition_events_filtered)
  qed
  then show ?thesis by (simp add: I_def)
qed

lemma attempt_loop_persistence_failure:
  assumes r3: "retryCount < 3"
    and init: "initializeMPU (toggleSensorPower True w) = Inr (True, w1)"
    and rd: "readAccelerometerDataForPhase cfg phase w1 = Inr w2"
    and lg: "log_script w2 = False # logs"
    and mt: "spiffs_begin_script w2 = mounted # mounts"
  shows "attempt_loop cfg fft_execute phase False retryCount w =
           (if mounted
            then attempt_loop cfg fft_execute phase False retryCount
                   (w2\<lparr>log_script := logs, spiffs_begin_script := mounts,
                       trace := trace w2 @ [LogDataToSPIFFS phase False, SpiffsEnd,
                                            SpiffsBegin True mounted]\<rparr>)
            else Inr ((False, retryCount),
                   w2\<lparr>log_script := logs, spiffs_begin_script := mounts,
                      trace := trace w2 @ [LogDataToSPIFFS phase False, SpiffsEnd,
                                           SpiffsBegin True mounted]\<rparr>))"
proof -
  let ?w3 = "w2\<lparr>log_script := logs, trace := trace w2 @ [LogDataToSPIFFS phase False]\<rparr>"
  let ?w4 = "w2\<lparr>log_script := logs, spiffs_begin_script := mounts,
                 trace := trace w2 @ [LogDataToSPIFFS phase False, SpiffsEnd,
                                      SpiffsBegin True mounted]\<rparr>"
  have l: "logDataToSPIFFS phase w2 = Inr (False, ?w3)"
    using lg by (simp add: logDataToSPIFFS_def emit_def)
  have m: "SPIFFS_begin True (SPIFFS_end ?w3) = Inr (mounted, ?w4)"
    using mt by (simp add: SPIFFS_begin_def SPIFFS_end_def emit_def)
  show ?thesis
    using r3 init rd l m
    by (subst attempt_loop.simps) simp
qed

text \<open>
  C7. In an attempt whose initialisation and acquisition succeed and whose persistence
  call fails, the loop closes the file system and reopens it once, with formatting
  allowed. If the remount fails the loop returns at once, with \<^verbatim>\<open>phaseCompleted\<close>
  false and the retry counter as it was; if it succeeds the loop goes on with the same
  retry counter. Over a whole phase, the retry counter is the number of failed
  initialisations, the number of remounts is the number of failed persistence calls, and
  the phase is completed exactly when the classifier was called.
\<close>

theorem persistence_failure_single_remount:
  assumes "retryCount < 3"
    and "initializeMPU (toggleSensorPower True w) = Inr (True, w1)"
    and "readAccelerometerDataForPhase cfg phase w1 = Inr w2"
    and "log_script w2 = False # logs"
    and "spiffs_begin_script w2 = mounted # mounts"
  shows "attempt_loop cfg fft_execute phase False retryCount w =
           (if mounted
            then attempt_loop cfg fft_execute phase False retryCount
                   (w2\<lparr>log_script := logs, spiffs_begin_script := mounts,
                       trace := trace w2 @ [LogDataToSPIFFS phase False, SpiffsEnd,
                                            SpiffsBegin True mounted]\<rparr>)
            else Inr ((False, retryCount),
                   w2\<lparr>log_script := logs, spiffs_begin_script := mounts,
                      trace := trace w2 @ [LogDataToSPIFFS phase False, SpiffsEnd,
                                           SpiffsBegin True mounted]\<rparr>))
         \<and> (\<forall>w0 phaseCompleted retries w'.
               attempt_loop cfg fft_execute phase False 0 w0 = Inr ((phaseCompleted, retries), w')
               \<longrightarrow> (\<exists>es. trace w' = trace w0 @ es
                      \<and> retries = int (length (filter is_failed_init es))
                      \<and> length (filter is_remount es) = length (filter is_failed_log es)
                      \<and> phaseCompleted = (filter is_report es \<noteq> [])))"
proof (intro conjI allI impI)
  show "attempt_loop cfg fft_execute phase False retryCount w =
           (if mounted
            then attempt_loop cfg fft_execute phase False retryCount
                   (w2\<lparr>log_script := logs, spiffs_begin_script := mounts,
                       trace := trace w2 @ [LogDataToSPIFFS phase False, SpiffsEnd,
                                            SpiffsBegin True mounted]\<rparr>)
            else Inr ((False, retryCount),
                   w2\<lparr>log_script := logs, spiffs_begin_script := mounts,
                      trace := trace w2 @ [LogDataToSPIFFS phase False, SpiffsEnd,
                                           SpiffsBegin True mounted]\<rparr>))"
    using assms by (rule attempt_loop_persistence_failure)
next
  fix w0 phaseCompleted retries w'
  assume "attempt_loop cfg fft_execute phase False 0 w0 = Inr ((phaseCompleted, retries), w')"
  from attempt_loop_summary [OF this]
  show "\<exists>es. trace w' = trace w0 @ es
           \<and> retries = int (length (filter is_failed_init es))
           \<and> length (filter is_remount es) = length (filter is_failed_log es)
           \<and> phaseCompleted = (filter is_report es \<noteq> [])"
    by (auto simp: phase_summary_def)
qed

lemma example_unwritable_init:
  "initializeMPU (toggleSensorPower True example_unwritable) =
     Inr (True, example_unwritable\<lparr>connection_script := [False, False, False],
            trace := [ToggleSensorPower True, MpuInitialize, MpuTestConnection True,
                      MpuConfigureFIFO]\<rparr>)"
  by (simp add: example_unwritable_def example_defs primitive_defs)

lemma example_unwritable_read:
  "readAccelerometerDataForPhase example_config 1
     (example_unwritable\<lparr>connection_script := [False, False, False],
        trace := [ToggleSensorPower True, MpuInitialize, MpuTestConnection True,
                  MpuConfigureFIFO]\<rparr>) =
   Inr (example_unwritable\<lparr>connection_script := [False, False, False],
          inputBuffer := [1, -1], millis_script := [], fifo_count_script := [],
          fifo_bytes_script := [], trace := example_attempt_events\<rparr>)"
  by (simp add: example_unwritable_def example_attempt_events_def example_defs primitive_defs
      readAccelerometerDataForPhase_def acquire_loop.simps extract_block.simps example_block_first example_block_second)

text \<open>
  C7, witness: a file system that refuses the store and the remount. The phase ends
  after one attempt, not completed, with no classification and a retry counter of 0.
\<close>

theorem persistence_failure_single_remount_witness:
  "(0::int) < 3
   \<and> initializeMPU (toggleSensorPower True example_unwritable) =
       Inr (True, example_unwritable\<lparr>connection_script := [False, False, False],
              trace := [ToggleSensorPower True, MpuInitialize, MpuTestConnection True,
                        MpuConfigureFIFO]\<rparr>)
   \<and> readAccelerometerDataForPhase example_config 1
        (example_unwritable\<lparr>connection_script := [False, False, False],
           trace := [ToggleSensorPower True, MpuInitialize, MpuTestConnection True,
                     MpuConfigureFIFO]\<rparr>) =
       Inr (example_unwritable\<lparr>connection_script := [False, False, False],
              inputBuffer := [1, -1], millis_script := [], fifo_count_script := [],
              fifo_bytes_script := [], trace := example_attempt_events\<rparr>)
   \<and> attempt_loop example_config example_fft 1 False 0 example_unwritable =
       Inr ((False, 0),
            example_unwritable\<lparr>connection_script := [False, False, False],
              inputBuffer := [1, -1], millis_script := [], fifo_count_script := [],
              fifo_bytes_script := [], log_script := [], spiffs_begin_script := [],
              trace := example_attempt_events
                         @ [LogDataToSPIFFS 1 False, SpiffsEnd, SpiffsBegin True False]\<rparr>)
   \<and> (\<exists>es. es = example_attempt_events @ [LogDataToSPIFFS 1 False, SpiffsEnd, SpiffsBegin True False]
        \<and> (0::int) = int (length (filter is_failed_init es))
        \<and> length (filter is_remount es) = length (filter is_failed_log es)
        \<and> False = (filter is_report es \<noteq> []))"
  using persistence_failure_single_remount
      [OF _ example_unwritable_init example_unwritable_read, of 0 "[]" False "[]" example_fft]
    example_unwritable_init example_unwritable_read
  by (simp add: example_unwritable_def example_attempt_events_def example_defs)

subsection \<open>The phase loop\<close>

lemma phase_iteration_shape:
  assumes "phase_iteration cfg fft_execute phase w = Inr w'"
  shows "remainingCycles w' = remainingCycles w - 1
         \<and> (\<exists>es. trace w' = trace w @ RecordingPhase phase (remainingCycles w) # es
                \<and> filter is_recording es = [])"
proof -
  let ?w0 = "emit (RecordingPhase phase (remainingCycles w)) w"
  from assms obtain pc r w1 where
    run: "attempt_loop cfg fft_execute phase False 0 ?w0 = Inr ((pc, r), w1)"
    and w': "w' = w1\<lparr>remainingCycles := remainingCycles w1 - 1\<rparr>"
    by (auto simp: phase_iteration_def split: sum.splits)
  from attempt_loop_summary [OF run] w' show ?thesis
    by (auto simp: emit_def phase_summary_def)
qed

lemma phase_loop_shape:
  assumes "phase_loop cfg fft_execute phase w = Inr w'"
  shows "remainingCycles w' = remainingCycles w - max 0 (CYCLES_FOR_5_MIN cfg + 1 - phase)
         \<and> (\<exists>es. trace w' = trace w @ es
                \<and> filter is_recording es =
                    map (\<lambda>p. RecordingPhase p (remainingCycles w - (p - phase)))
                      [phase .. CYCLES_FOR_5_MIN cfg])"
  using assms
proof (induction cfg fft_execute phase w rule: phase_loop.induct)
  case (1 cfg fft_execute phase w)
  note unfold = phase_loop.simps [of cfg fft_execute phase w]
  show ?case
  proof (cases "phase \<le> CYCLES_FOR_5_MIN cfg")
    case False
    with "1.prems" have "w' = w" by (simp add: unfold)
    with False show ?thesis by simp
  next
    case True
    with "1.prems" obtain w1 where
      it: "phase_iteration cfg fft_execute phase w = Inr w1"
      and rec: "phase_loop cfg fft_execute (phase + 1) w1 = Inr w'"
      by (subst (asm) unfold) (auto split: sum.splits)
    from phase_iteration_shape [OF it] obtain es where
      c1: "remainingCycles w1 = remainingCycles w - 1"
      and t1: "trace w1 = trace w @ RecordingPhase phase (remainingCycles w) # es"
      and f1: "filter is_recording es = []"
      by blast
    from "1.IH" [OF True it rec] obtain fs where
      c2: "remainingCycles w' = remainingCycles w1 - max 0 (CYCLES_FOR_5_MIN cfg + 1 - (phase + 1))"
      and t2: "trace w' = trace w1 @ fs"
      and f2: "filter is_recording fs =
                 map (\<lambda>p. RecordingPhase p (remainingCycles w1 - (p - (phase + 1))))
                   [phase + 1 .. CYCLES_FOR_5_MIN cfg]"
      by blast
    have "[phase .. CYCLES_FOR_5_MIN cfg] = phase # [phase + 1 .. CYCLES_FOR_5_MIN cfg]"
      using True by (simp add: upto_rec1)
    then have "filter is_recording (RecordingPhase phase (remainingCycles w) # es @ fs) =
        map (\<lambda>p. RecordingPhase p (remainingCycles w - (p - phase))) [phase .. CYCLES_FOR_5_MIN cfg]"
      using f1 f2 c1 by (simp add: algebra_simps)
    moreover have "trace w' = trace w @ (RecordingPhase phase (remainingCycles w) # es @ fs)"
      using t1 t2 by simp
    moreover have "remainingCycles w' = remainingCycles w - max 0 (CYCLES_FOR_5_MIN cfg + 1 - phase)"
      using c1 c2 True by simp
    ultimately show ?thesis by blast
  qed
qed

lemma phase_loop_returns:
  assumes "connection_script w = replicate (3 * nat (CYCLES_FOR_5_MIN cfg + 1 - phase)) False @ rest"
  shows "\<exists>w'. phase_loop cfg fft_execute phase w = Inr w'"
  using assms
proof (induction cfg fft_execute phase w rule: phase_loop.induct)
  case (1 cfg fft_execute phase w)
  note unfold = phase_loop.simps [of cfg fft_execute phase w]
  show ?case
  proof (cases "phase \<le> CYCLES_FOR_5_MIN cfg")
    case False
    then show ?thesis by (simp add: unfold)
  next
    case True
    let ?n = "nat (CYCLES_FOR_5_MIN cfg + 1 - (phase + 1))"
    have "nat (CYCLES_FOR_5_MIN cfg + 1 - phase) = Suc ?n"
      using True by simp
    moreover have "replicate (3 * Suc ?n) False = False # False # False # replicate (3 * ?n) False"
      by (simp add: numeral_3_eq_3)
    ultimately have script: "connection_script w =
        False # False # False # (replicate (3 * ?n) False @ rest)"
      using "1.prems" by simp
    let ?w1 = "w\<lparr>connection_script := replicate (3 * ?n) False @ rest,
                  trace := trace w @
                    [RecordingPhase phase (remainingCycles w),
                     ToggleSensorPower True, MpuInitialize, MpuTestConnection False,
                     ToggleSensorPower True, MpuInitialize, MpuTestConnection False,
                     ToggleSensorPower True, MpuInitialize, MpuTestConnection False],
                  remainingCycles := remainingCycles w - 1\<rparr>"
    have it: "phase_iteration cfg fft_execute phase w = Inr ?w1"
      using script by (rule phase_iteration_three_failures)
    have "\<exists>w'. phase_loop cfg fft_execute (phase + 1) ?w1 = Inr w'"
      by (rule "1.IH" [OF True it]) simp
    then show ?thesis
      using True it by (simp add: unfold)
  qed
qed

text \<open>
  C10. Entered with \<^verbatim>\<open>remainingCycles\<close> above 0, a call of \<^verbatim>\<open>monitorSensors\<close>
  that returns has started every phase from 1 to \<^verbatim>\<open>CYCLES_FOR_5_MIN\<close>, in order, each
  with \<^verbatim>\<open>remainingCycles\<close> one less than the phase before and whatever its sign, and
  has decremented \<^verbatim>\<open>remainingCycles\<close> by \<^verbatim>\<open>CYCLES_FOR_5_MIN\<close>; the result is
  negative when the budget at entry was below \<^verbatim>\<open>CYCLES_FOR_5_MIN\<close>. The call does
  return when, for one, the sensor fails every connection test.
\<close>

theorem budget_checked_on_entry_only:
  assumes "0 < remainingCycles w"
  shows "(\<forall>w'. monitorSensors cfg fft_execute w = Inr w' \<longrightarrow>
            remainingCycles w' = remainingCycles w - max 0 (CYCLES_FOR_5_MIN cfg)
            \<and> (\<exists>es. trace w' = trace w @ es
                 \<and> filter is_recording es =
                     map (\<lambda>p. RecordingPhase p (remainingCycles w - (p - 1)))
                       [1 .. CYCLES_FOR_5_MIN cfg])
            \<and> (remainingCycles w < CYCLES_FOR_5_MIN cfg \<longrightarrow> remainingCycles w' < 0))
         \<and> (\<forall>rest. connection_script w = replicate (3 * nat (CYCLES_FOR_5_MIN cfg)) False @ rest
              \<longrightarrow> (\<exists>w'. monitorSensors cfg fft_execute w = Inr w'))"
proof (intro conjI allI impI)
  fix w' assume run: "monitorSensors cfg fft_execute w = Inr w'"
  then have loop: "phase_loop cfg fft_execute 1 w = Inr w'"
    using assms by (simp add: monitorSensors_def)
  note shape = phase_loop_shape [OF loop]
  show "remainingCycles w' = remainingCycles w - max 0 (CYCLES_FOR_5_MIN cfg)"
    using shape by simp
  show "\<exists>es. trace w' = trace w @ es
          \<and> filter is_recording es =
              map (\<lambda>p. RecordingPhase p (remainingCycles w - (p - 1))) [1 .. CYCLES_FOR_5_MIN cfg]"
    using shape by simp
  assume "remainingCycles w < CYCLES_FOR_5_MIN cfg"
  then show "remainingCycles w' < 0"
    using shape assms by simp
next
  fix rest
  assume "connection_script w = replicate (3 * nat (CYCLES_FOR_5_MIN cfg)) False @ rest"
  then have "\<exists>w'. phase_loop cfg fft_execute 1 w = Inr w'"
    by (intro phase_loop_returns [where rest = rest]) simp
  then show "\<exists>w'. monitorSensors cfg fft_execute w = Inr w'"
    using assms by (simp add: monitorSensors_def)
qed

lemma example_monitorSensors:
  "monitorSensors example_config example_fft example_world = Inr example_final"
  by (simp add: monitorSensors_def phase_loop.simps phase_iteration_def attempt_loop.simps
      readAccelerometerDataForPhase_def acquire_loop.simps extract_block.simps example_block_first example_block_second
      performFFT_NoActivity example_final_def example_attempt_events_def
      example_defs primitive_defs)

text \<open>
  C10, witness: the example enters with one cycle left and two phases to run. The first
  phase completes, the second is run with a budget of 0 and abandoned, and the budget
  ends at \<open>-1\<close>.
\<close>

theorem budget_checked_on_entry_only_witness:
  "0 < remainingCycles example_world
   \<and> remainingCycles example_world < CYCLES_FOR_5_MIN example_config
   \<and> monitorSensors example_config example_fft example_world = Inr example_final
   \<and> remainingCycles example_final = - 1
   \<and> filter is_recording (trace example_final) = [RecordingPhase 1 1, RecordingPhase 2 0]
   \<and> connection_script (example_world\<lparr>connection_script := replicate 6 False\<rparr>)
        = replicate (3 * nat (CYCLES_FOR_5_MIN example_config)) False @ []
   \<and> (\<exists>w'. monitorSensors example_config example_fft
               (example_world\<lparr>connection_script := replicate 6 False\<rparr>) = Inr w')"
  using budget_checked_on_entry_only [of example_world example_config example_fft]
    budget_checked_on_entry_only
      [of "example_world\<lparr>connection_script := replicate 6 False\<rparr>" example_config example_fft]
    example_monitorSensors
  by (simp add: example_final_def example_attempt_events_def example_defs)

end
